theory Spec2Isabelle
  imports Complex_Main "HOL-Library.Multiset" "HOL-Library.Product_Lexorder"
    "HOL-Library.Word"
begin

section \<open>Cluster preparation under the SymCompare variants\<close>

text \<open>
  \<^verbatim>\<open>ClusterSymCompare_impl.hh\<close> prepares an \<^verbatim>\<open>IntegralCluster\<close>, a sequence of
  \<^verbatim>\<open>UnitCellCoord\<close>s. A \<^verbatim>\<open>UnitCellCoord\<close> is an integral unit cell and a sublattice
  index. The headers of \<^verbatim>\<open>UnitCellCoord\<close> and \<^verbatim>\<open>IntegralCluster\<close> are not part of the
  sources, so the coordinate is a pair whose order is the lexicographic one (unit cell
  first, then sublattice), and \<^verbatim>\<open>IntegralCluster::sort\<close> sorts by it. The components
  of a unit cell are C++ \<^verbatim>\<open>long\<close>s: words of 64 bits that are compared as signed numbers
  and whose sums and differences wrap around.
\<close>

unbundle bit_operations_syntax

type_synonym UnitCell = "64 word \<times> 64 word \<times> 64 word"

type_synonym UnitCellCoord = "UnitCell \<times> nat"

type_synonym IntegralCluster = "UnitCellCoord list"

definition unitcell :: "UnitCellCoord \<Rightarrow> UnitCell" where
  "unitcell u = fst u"

definition sublat :: "UnitCellCoord \<Rightarrow> nat" where
  "sublat u = snd u"

fun uc_plus :: "UnitCell \<Rightarrow> UnitCell \<Rightarrow> UnitCell" where
  "uc_plus (a, b, c) (d, e, f) = (a + d, b + e, c + f)"

fun uc_minus :: "UnitCell \<Rightarrow> UnitCell \<Rightarrow> UnitCell" where
  "uc_minus (a, b, c) (d, e, f) = (a - d, b - e, c - f)"

text \<open>\<^verbatim>\<open>obj + trans\<close> and \<^verbatim>\<open>obj - trans\<close>: every site of the cluster is shifted by the
  same lattice translation; the sublattice index stays.\<close>

definition cluster_plus :: "IntegralCluster \<Rightarrow> UnitCell \<Rightarrow> IntegralCluster" where
  "cluster_plus obj shift = map (\<lambda>u. (uc_plus (unitcell u) shift, sublat u)) obj"

definition cluster_minus :: "IntegralCluster \<Rightarrow> UnitCell \<Rightarrow> IntegralCluster" where
  "cluster_minus obj shift = map (\<lambda>u. (uc_minus (unitcell u) shift, sublat u)) obj"

text \<open>Modelled from the spec: the order of \<^verbatim>\<open>UnitCellCoord\<close> (its header is not among
  the sources), lexicographic by coordinate. The key of a coordinate holds the signed
  values of the unit-cell components, then the sublattice.\<close>

fun coord_key :: "UnitCellCoord \<Rightarrow> (int \<times> int \<times> int) \<times> nat" where
  "coord_key ((a, b, c), s) = ((sint a, sint b, sint c), s)"

text \<open>Modelled from the spec: \<^verbatim>\<open>IntegralCluster::sort\<close> (\<^verbatim>\<open>obj.sort()\<close>), which puts the sites
  in their canonical order, lexicographic by coordinate.\<close>

definition cluster_sort :: "IntegralCluster \<Rightarrow> IntegralCluster" where
  "cluster_sort obj = sort_key coord_key obj"

text \<open>Modelled from the spec: \<^verbatim>\<open>traits<...>::position(obj, ...)\<close>, the anchor site of a
  cluster. The comments of \<^verbatim>\<open>spatial_prepare_impl\<close> name it: "translates so that obj[0]
  is in the origin unit cell". It is only called behind the guard
  \<^verbatim>\<open>if(!obj.size()) return obj;\<close>.\<close>

definition position :: "IntegralCluster \<Rightarrow> UnitCellCoord" where
  "position obj = hd obj"

text \<open>The four variants. The supercell variants own the functor \<^verbatim>\<open>m_bring_within_f\<close>
  (a \<^verbatim>\<open>LatticePointWithin\<close>, built from the transformation matrix of the supercell),
  which is a parameter here.\<close>

datatype SymCompare =
    AperiodicSymCompare
  | PrimPeriodicSymCompare
  | ScelPeriodicSymCompare "UnitCellCoord \<Rightarrow> UnitCellCoord"
  | WithinScelSymCompare "UnitCellCoord \<Rightarrow> UnitCellCoord"

text \<open>Modelled from the spec: \<^verbatim>\<open>traits<WithinScelSymCompare<Element>>::bring_within\<close>,
  which folds every site into the supercell.\<close>

definition bring_within :: "(UnitCellCoord \<Rightarrow> UnitCellCoord) \<Rightarrow> IntegralCluster \<Rightarrow> IntegralCluster" where
  "bring_within f obj = map f obj"

text \<open>The two steps of the preparation, variant by variant. The periodic variants also
  store the translation they applied in the member \<^verbatim>\<open>m_spatial_transform\<close>; the stored
  operation does not enter the result and is left out.\<close>

fun spatial_prepare_impl :: "SymCompare \<Rightarrow> IntegralCluster \<Rightarrow> IntegralCluster" where
  "spatial_prepare_impl AperiodicSymCompare obj = obj"
| "spatial_prepare_impl PrimPeriodicSymCompare obj =
     (if length obj = 0 then obj
      else let pos = position obj in cluster_minus obj (unitcell pos))"
| "spatial_prepare_impl (ScelPeriodicSymCompare m_bring_within_f) obj =
     (if length obj = 0 then obj
      else let pos = position obj in
        cluster_plus obj (uc_minus (unitcell (m_bring_within_f pos)) (unitcell pos)))"
| "spatial_prepare_impl (WithinScelSymCompare m_bring_within_f) obj = obj"

fun representation_prepare_impl :: "SymCompare \<Rightarrow> IntegralCluster \<Rightarrow> IntegralCluster" where
  "representation_prepare_impl AperiodicSymCompare obj = cluster_sort obj"
| "representation_prepare_impl PrimPeriodicSymCompare obj =
     (if length obj = 0 then obj else cluster_sort obj)"
| "representation_prepare_impl (ScelPeriodicSymCompare m_bring_within_f) obj =
     (if length obj = 0 then obj else cluster_sort obj)"
| "representation_prepare_impl (WithinScelSymCompare m_bring_within_f) obj =
     (if length obj = 0 then obj else cluster_sort (bring_within m_bring_within_f obj))"

text \<open>
  Modelled from the spec: \<^verbatim>\<open>SymCompare::prepare\<close>, the composition of the two steps
  (\<^verbatim>\<open>SymCompare.hh\<close> is not among the sources). The specification names the two steps
  and lists them as spatial, then representation preparation (section 4.2, step 1); the
  comment of \<^verbatim>\<open>PrimPeriodicSymCompare::representation_prepare_impl\<close> describes the
  representation step as the first one: "Sorts so that, after translation obj[0] is in
  the origin unit cell". Both compositions are modelled, and the order is a parameter.
\<close>

datatype StepOrder = RepresentationFirst | SpatialFirst

fun prepare :: "StepOrder \<Rightarrow> SymCompare \<Rightarrow> IntegralCluster \<Rightarrow> IntegralCluster" where
  "prepare RepresentationFirst v obj = spatial_prepare_impl v (representation_prepare_impl v obj)"
| "prepare SpatialFirst v obj = representation_prepare_impl v (spatial_prepare_impl v obj)"

text \<open>What the preparation needs from the functor \<^verbatim>\<open>m_bring_within_f\<close>: a site that is
  within the supercell stays where it is, and the sublattice of a site is kept.\<close>

definition within_functor :: "(UnitCellCoord \<Rightarrow> UnitCellCoord) \<Rightarrow> bool" where
  "within_functor f = (\<forall>u. f (f u) = f u \<and> sublat (f u) = sublat u)"

fun functor_ok :: "SymCompare \<Rightarrow> bool" where
  "functor_ok (ScelPeriodicSymCompare f) = within_functor f"
| "functor_ok (WithinScelSymCompare f) = within_functor f"
| "functor_ok v = True"

text \<open>The variants whose spatial step translates the cluster.\<close>

fun translates :: "SymCompare \<Rightarrow> bool" where
  "translates PrimPeriodicSymCompare = True"
| "translates (ScelPeriodicSymCompare m_bring_within_f) = True"
| "translates v = False"

text \<open>A sum or difference of two \<^verbatim>\<open>long\<close>s is exact when its value lies in the range of
  the type.\<close>

definition fits_long :: "int \<Rightarrow> bool" where
  "fits_long k = (- (2 ^ 63) \<le> k \<and> k < 2 ^ 63)"

fun minus_fits :: "UnitCell \<Rightarrow> UnitCell \<Rightarrow> bool" where
  "minus_fits (a, b, c) (d, e, f) =
     (fits_long (sint a - sint d) \<and> fits_long (sint b - sint e) \<and> fits_long (sint c - sint f))"

fun plus_fits :: "UnitCell \<Rightarrow> UnitCell \<Rightarrow> bool" where
  "plus_fits (a, b, c) (d, e, f) =
     (fits_long (sint a + sint d) \<and> fits_long (sint b + sint e) \<and> fits_long (sint c + sint f))"

text \<open>The translation that the spatial step applies to the sorted cluster is exact at
  every site: no component leaves the range of \<^verbatim>\<open>long\<close>. The aperiodic and the
  within-supercell variant do not translate.\<close>

fun translation_fits :: "SymCompare \<Rightarrow> IntegralCluster \<Rightarrow> bool" where
  "translation_fits AperiodicSymCompare obj = True"
| "translation_fits PrimPeriodicSymCompare obj =
     list_all (\<lambda>u. minus_fits (unitcell u) (unitcell (position (cluster_sort obj)))) obj"
| "translation_fits (ScelPeriodicSymCompare m_bring_within_f) obj =
     list_all (\<lambda>u. plus_fits (unitcell u)
         (uc_minus (unitcell (m_bring_within_f (position (cluster_sort obj))))
            (unitcell (position (cluster_sort obj))))) obj"
| "translation_fits (WithinScelSymCompare m_bring_within_f) obj = True"

text \<open>The shift of an order key by a translation.\<close>

fun key_shift :: "int \<times> int \<times> int \<Rightarrow> (int \<times> int \<times> int) \<times> nat \<Rightarrow> (int \<times> int \<times> int) \<times> nat" where
  "key_shift (d, e, f) ((a, b, c), s) = ((a + d, b + e, c + f), s)"

text \<open>A supercell of two unit cells along every axis, for the examples: the component
  modulo two.\<close>

definition fold2 :: "UnitCellCoord \<Rightarrow> UnitCellCoord" where
  "fold2 u = (case u of ((i, j, k), b) \<Rightarrow> ((i AND 1, j AND 1, k AND 1), b))"
section \<open>The Orbitree\<close>

text \<open>
  \<^verbatim>\<open>Orbitree_impl.hh\<close> implements \<^verbatim>\<open>GenericOrbitree<ClustType>\<close>, an array of branches;
  branch \<open>np\<close> is an array of orbits, and an orbit has a prototype cluster and the array
  of its equivalents. The cluster, orbit and branch classes are not among the sources:
  the records below hold the members that the Orbitree code reads (the sites, the two
  lengths computed by \<^verbatim>\<open>calc_properties\<close>, the prototype, the equivalents). Lengths are
  real numbers; the comparisons of the code are the exact comparisons \<open><\<close> and \<open>>\<close> on
  them.
\<close>

record 's Cluster =
  sites :: "'s list"
  m_min_length :: real
  m_max_length :: real

record 's Orbit =
  prototype :: "'s Cluster"
  equivalents :: "'s Cluster list"

type_synonym 's OrbitBranch = "'s Orbit list"

record 's Orbitree =
  branches :: "'s OrbitBranch list"
  max_num_sites :: nat
  max_length :: "real list"
  min_length :: real

text \<open>The ways in which the code stops: \<^verbatim>\<open>assert(0)\<close> on an empty factor group, an
  index outside an \<^verbatim>\<open>Array\<close>, and the two \<^verbatim>\<open>exit(1)\<close> with their diagnostics.\<close>

datatype 's error =
    EmptyFactorGroup
  | IndexOutOfRange
  | CannotEnumerate nat
  | EquivalentsMismatch nat nat "'s Cluster"

text \<open>
  The operations of the cluster and orbit classes that the Orbitree code calls and whose
  code is not among the sources are parameters: \<^verbatim>\<open>ClustType::within\<close>,
  \<^verbatim>\<open>ClustType::calc_properties\<close> (with and without a phenomenal cluster),
  \<^verbatim>\<open>GenericOrbit::get_equivalent\<close> (the equivalents of a prototype under a symmetry
  group, a list of operations of type \<open>'g\<close>) and \<^verbatim>\<open>GenericOrbit::contains\<close>.
\<close>

record ('s, 'g) ClusterOps =
  within_c :: "'s Cluster \<Rightarrow> 's Cluster"
  calc_properties :: "'s Cluster \<Rightarrow> 's Cluster"
  calc_properties_phenom :: "'s Cluster \<Rightarrow> 's Cluster \<Rightarrow> 's Cluster"
  get_equivalent :: "'g list \<Rightarrow> 's Cluster \<Rightarrow> 's Cluster list"
  orbit_contains :: "'s Orbit \<Rightarrow> 's Cluster \<Rightarrow> bool"

subsection \<open>Clusters, orbits and branches\<close>

text \<open>\<^verbatim>\<open>ClustType tclust(lattice)\<close>: a cluster without sites.\<close>

definition empty_cluster :: "'s Cluster" where
  "empty_cluster = \<lparr>sites = [], m_min_length = 0, m_max_length = 0\<rparr>"

definition cluster_size :: "'s Cluster \<Rightarrow> nat" where
  "cluster_size c = length (sites c)"

definition push_back_site :: "'s Cluster \<Rightarrow> 's \<Rightarrow> 's Cluster" where
  "push_back_site c s = c\<lparr>sites := sites c @ [s]\<rparr>"

definition pop_back_site :: "'s Cluster \<Rightarrow> 's Cluster" where
  "pop_back_site c = c\<lparr>sites := butlast (sites c)\<rparr>"

text \<open>\<^verbatim>\<open>GenericOrbit<ClustType>(tclust)\<close> followed by \<^verbatim>\<open>get_equivalent(group)\<close>: the orbit
  with prototype \<open>tclust\<close> and its equivalents. (\<^verbatim>\<open>get_cluster_symmetry\<close>, called next,
  stores the cluster group of the prototype, which the Orbitree code never reads.)\<close>

definition new_orbit :: "('s, 'g) ClusterOps \<Rightarrow> 'g list \<Rightarrow> 's Cluster \<Rightarrow> 's Orbit" where
  "new_orbit ops G tclust = \<lparr>prototype = tclust, equivalents = get_equivalent ops G tclust\<rparr>"

text \<open>\<^verbatim>\<open>orbit.size()\<close> is the number of equivalents; \<^verbatim>\<open>orbit.max_length()\<close> is the
  length of the prototype.\<close>

definition orbit_size :: "'s Orbit \<Rightarrow> nat" where
  "orbit_size orb = length (equivalents orb)"

definition orbit_max_length :: "'s Orbit \<Rightarrow> real" where
  "orbit_max_length orb = m_max_length (prototype orb)"

text \<open>Modelled from the spec: \<^verbatim>\<open>GenericOrbitBranch::num_sites\<close>. All orbits of a branch
  have prototypes of one size, which is the number of sites of the branch; for a branch
  without orbits the value is never used to select an orbit.\<close>

definition num_sites :: "'s OrbitBranch \<Rightarrow> nat" where
  "num_sites b = (case b of [] \<Rightarrow> 0 | orb # _ \<Rightarrow> cluster_size (prototype orb))"

text \<open>Modelled from the spec: \<^verbatim>\<open>GenericOrbitBranch::sort\<close>, which orders the orbits of a
  branch by ascending maximum length (orbits of equal length keep their order).\<close>

definition sort_branch :: "'s OrbitBranch \<Rightarrow> 's OrbitBranch" where
  "sort_branch b = sort_key orbit_max_length b"

text \<open>\<^verbatim>\<open>sort(np)\<close> and \<^verbatim>\<open>sort()\<close>.\<close>

definition sort_np :: "nat \<Rightarrow> 's Orbitree \<Rightarrow> 's Orbitree" where
  "sort_np np T = T\<lparr>branches := (branches T)[np := sort_branch (branches T ! np)]\<rparr>"

definition sort_tree :: "'s Orbitree \<Rightarrow> 's Orbitree" where
  "sort_tree T = T\<lparr>branches := map sort_branch (branches T)\<rparr>"

text \<open>\<^verbatim>\<open>resize(n)\<close>: \<^verbatim>\<open>Array::resize\<close> keeps the branches that are there and fills up
  with empty ones.\<close>

definition resize :: "nat \<Rightarrow> 's Orbitree \<Rightarrow> 's Orbitree" where
  "resize n T = T\<lparr>branches := take n (branches T) @ replicate (n - length (branches T)) []\<rparr>"

text \<open>\<^verbatim>\<open>at(np).push_back(orbit)\<close>. The enumerations call it with \<open>np \<le> max_num_sites\<close>
  after \<^verbatim>\<open>resize(max_num_sites + 1)\<close>.\<close>

definition push_orbit :: "nat \<Rightarrow> 's Orbit \<Rightarrow> 's Orbitree \<Rightarrow> 's Orbitree" where
  "push_orbit np orb T = T\<lparr>branches := (branches T)[np := branches T ! np @ [orb]]\<rparr>"

subsection \<open>find and contains\<close>

text \<open>The loop of \<^verbatim>\<open>find(test_clust, nb)\<close> over the orbits of one branch: the index of
  the first orbit that contains the cluster, the number of orbits when there is none.\<close>

fun find_branch :: "('s, 'g) ClusterOps \<Rightarrow> 's OrbitBranch \<Rightarrow> 's Cluster \<Rightarrow> nat" where
  "find_branch ops [] test_clust = 0"
| "find_branch ops (orb # orbs) test_clust =
     (if orbit_contains ops orb test_clust then 0
      else Suc (find_branch ops orbs test_clust))"

text \<open>\<^verbatim>\<open>find(test_clust, nb)\<close>; \<^verbatim>\<open>at(nb)\<close> needs a branch \<open>nb\<close>.\<close>

definition find_nb :: "('s, 'g) ClusterOps \<Rightarrow> 's Orbitree \<Rightarrow> 's Cluster \<Rightarrow> nat \<Rightarrow> 's error + nat" where
  "find_nb ops T test_clust nb =
     (if nb < length (branches T) then Inr (find_branch ops (branches T ! nb) test_clust)
      else Inl IndexOutOfRange)"

text \<open>\<^verbatim>\<open>find(test_clust)\<close>: the linear index over all branches. Only a branch whose
  number of sites is the size of the cluster is searched; \<open>ind\<close> counts the orbits of
  the branches passed.\<close>

fun find_from :: "('s, 'g) ClusterOps \<Rightarrow> 's OrbitBranch list \<Rightarrow> 's Cluster \<Rightarrow> nat \<Rightarrow> nat" where
  "find_from ops [] test_clust ind = ind"
| "find_from ops (b # bs) test_clust ind =
     (if num_sites b = cluster_size test_clust \<and> find_branch ops b test_clust < length b
      then ind + find_branch ops b test_clust
      else find_from ops bs test_clust (ind + length b))"

definition find_clust :: "('s, 'g) ClusterOps \<Rightarrow> 's Orbitree \<Rightarrow> 's Cluster \<Rightarrow> nat" where
  "find_clust ops T test_clust = find_from ops (branches T) test_clust 0"

text \<open>\<^verbatim>\<open>contains(test_clust)\<close>: \<^verbatim>\<open>find(test_clust, i) < at(i).size()\<close> for some branch
  \<open>i < size()\<close>. Every \<open>i\<close> of the loop is a branch of the tree, so the lookup in branch
  \<open>i\<close> is the loop over its orbits.\<close>

fun contains_from :: "('s, 'g) ClusterOps \<Rightarrow> 's OrbitBranch list \<Rightarrow> 's Cluster \<Rightarrow> bool" where
  "contains_from ops [] test_clust = False"
| "contains_from ops (b # bs) test_clust =
     (if find_branch ops b test_clust < length b then True
      else contains_from ops bs test_clust)"

definition contains :: "('s, 'g) ClusterOps \<Rightarrow> 's Orbitree \<Rightarrow> 's Cluster \<Rightarrow> bool" where
  "contains ops T test_clust = contains_from ops (branches T) test_clust"

subsection \<open>generate\_orbitree: growth by one site\<close>

text \<open>
  The body of the loop over the grid sites (lines 514 to 532). \<open>tclust\<close> is the cluster
  that the loop keeps: a site is pushed, the cluster is brought within the unit cell
  and its lengths are computed, the cluster is tested, and the last site is popped.
  \<^verbatim>\<open>max_length[np]\<close> is read in the second condition, which is evaluated whenever the
  first one fails.
\<close>

definition try_site ::
  "('s, 'g) ClusterOps \<Rightarrow> 'g list \<Rightarrow> nat \<Rightarrow> 's Cluster \<times> 's Orbitree \<Rightarrow> 's
    \<Rightarrow> 's error + 's Cluster \<times> 's Orbitree" where
  "try_site ops G np st s =
     (let T = snd st;
          tclust = calc_properties ops (within_c ops (push_back_site (fst st) s))
      in if np = 1 \<and> \<not> contains ops T tclust
         then Inr (pop_back_site tclust, push_orbit np (new_orbit ops G tclust) T)
         else if length (max_length T) \<le> np then Inl IndexOutOfRange
         else if m_max_length tclust < max_length T ! np \<and> m_min_length tclust > min_length T
                 \<and> \<not> contains ops T tclust
         then Inr (pop_back_site tclust, push_orbit np (new_orbit ops G tclust) T)
         else Inr (pop_back_site tclust, T))"

text \<open>The loop over \<open>gridstruc\<close>.\<close>

fun site_loop ::
  "('s, 'g) ClusterOps \<Rightarrow> 'g list \<Rightarrow> nat \<Rightarrow> 's Cluster \<times> 's Orbitree \<Rightarrow> 's list
    \<Rightarrow> 's error + 's Cluster \<times> 's Orbitree" where
  "site_loop ops G np st [] = Inr st"
| "site_loop ops G np st (s # gridstruc) =
     (case try_site ops G np st s of
        Inl e \<Rightarrow> Inl e
      | Inr st' \<Rightarrow> site_loop ops G np st' gridstruc)"

text \<open>\<open>tclust\<close> starts with the sites of the prototype of an orbit of the branch below.\<close>

definition start_cluster :: "'s Orbit \<Rightarrow> 's Cluster" where
  "start_cluster orb = empty_cluster\<lparr>sites := sites (prototype orb)\<rparr>"

text \<open>The loop over the orbits of branch \<open>np - 1\<close> (line 501). The orbits that are found
  go to branch \<open>np\<close>, so the loop runs over the orbits that branch \<open>np - 1\<close> has when it
  starts.\<close>

fun orbit_loop ::
  "('s, 'g) ClusterOps \<Rightarrow> 'g list \<Rightarrow> nat \<Rightarrow> 's list \<Rightarrow> 's Orbitree \<Rightarrow> 's Orbit list
    \<Rightarrow> 's error + 's Orbitree" where
  "orbit_loop ops G np gridstruc T [] = Inr T"
| "orbit_loop ops G np gridstruc T (orb # orbs) =
     (case site_loop ops G np (start_cluster orb, T) gridstruc of
        Inl e \<Rightarrow> Inl e
      | Inr st \<Rightarrow> orbit_loop ops G np gridstruc (snd st) orbs)"

text \<open>The loop over \<open>np = 1, \<dots>, max_num_sites\<close> (line 490): it stops with
  \<^verbatim>\<open>exit(1)\<close> when the branch below is empty.\<close>

fun branch_loop ::
  "('s, 'g) ClusterOps \<Rightarrow> 'g list \<Rightarrow> 's list \<Rightarrow> 's Orbitree \<Rightarrow> nat list
    \<Rightarrow> 's error + 's Orbitree" where
  "branch_loop ops G gridstruc T [] = Inr T"
| "branch_loop ops G gridstruc T (np # nps) =
     (if length (branches T ! (np - 1)) = 0 then Inl (CannotEnumerate np)
      else case orbit_loop ops G np gridstruc T (branches T ! (np - 1)) of
        Inl e \<Rightarrow> Inl e
      | Inr T' \<Rightarrow> branch_loop ops G gridstruc T' nps)"

text \<open>The tree after \<^verbatim>\<open>resize(max_num_sites + 1)\<close> and the orbit of the empty cluster.\<close>

definition start_tree :: "('s, 'g) ClusterOps \<Rightarrow> 'g list \<Rightarrow> 's Orbitree \<Rightarrow> 's Orbitree" where
  "start_tree ops G T =
     push_orbit 0 (new_orbit ops G empty_cluster) (resize (max_num_sites T + 1) T)"

text \<open>
  \<^verbatim>\<open>generate_orbitree(prim, verbose)\<close>. The factor group \<open>G\<close> of \<open>prim\<close> and the grid of
  candidate sites \<open>gridstruc\<close>, which the function computes from the lattice and the
  basis of \<open>prim\<close> (lines 432 to 466), are inputs. \<^verbatim>\<open>get_index\<close>, called last, fills the
  index tables of the tree and leaves the branches as they are.
\<close>

definition generate_orbitree ::
  "('s, 'g) ClusterOps \<Rightarrow> 'g list \<Rightarrow> 's list \<Rightarrow> 's Orbitree \<Rightarrow> 's error + 's Orbitree" where
  "generate_orbitree ops G gridstruc T =
     (if length G = 0 then Inl EmptyFactorGroup
      else case branch_loop ops G gridstruc (start_tree ops G T) [1..<Suc (max_num_sites T)] of
        Inl e \<Rightarrow> Inl e
      | Inr T' \<Rightarrow> Inr (sort_tree T'))"

subsection \<open>generate\_local\_orbitree\<close>

text \<open>
  The local variant (lines 2432 to 2508): the acting group is the cluster group of the
  phenomenal cluster, the candidate is not brought within the unit cell, its lengths are
  computed relative to the phenomenal cluster, and an empty branch below \<open>np\<close> ends the
  function with a warning, \<^verbatim>\<open>sort()\<close>, \<^verbatim>\<open>get_index()\<close> and \<^verbatim>\<open>return\<close> (the \<^verbatim>\<open>exit(1)\<close>
  is commented out).
\<close>

definition try_site_local ::
  "('s, 'g) ClusterOps \<Rightarrow> 'g list \<Rightarrow> 's Cluster \<Rightarrow> nat \<Rightarrow> 's Cluster \<times> 's Orbitree \<Rightarrow> 's
    \<Rightarrow> 's error + 's Cluster \<times> 's Orbitree" where
  "try_site_local ops G phenom_clust np st s =
     (let T = snd st;
          tclust = calc_properties_phenom ops phenom_clust (push_back_site (fst st) s)
      in if np = 1 \<and> \<not> contains ops T tclust
         then Inr (pop_back_site tclust, push_orbit np (new_orbit ops G tclust) T)
         else if length (max_length T) \<le> np then Inl IndexOutOfRange
         else if m_max_length tclust < max_length T ! np \<and> m_min_length tclust > min_length T
                 \<and> \<not> contains ops T tclust
         then Inr (pop_back_site tclust, push_orbit np (new_orbit ops G tclust) T)
         else Inr (pop_back_site tclust, T))"

fun site_loop_local ::
  "('s, 'g) ClusterOps \<Rightarrow> 'g list \<Rightarrow> 's Cluster \<Rightarrow> nat \<Rightarrow> 's Cluster \<times> 's Orbitree \<Rightarrow> 's list
    \<Rightarrow> 's error + 's Cluster \<times> 's Orbitree" where
  "site_loop_local ops G phenom_clust np st [] = Inr st"
| "site_loop_local ops G phenom_clust np st (s # gridstruc) =
     (case try_site_local ops G phenom_clust np st s of
        Inl e \<Rightarrow> Inl e
      | Inr st' \<Rightarrow> site_loop_local ops G phenom_clust np st' gridstruc)"

fun orbit_loop_local ::
  "('s, 'g) ClusterOps \<Rightarrow> 'g list \<Rightarrow> 's Cluster \<Rightarrow> nat \<Rightarrow> 's list \<Rightarrow> 's Orbitree
    \<Rightarrow> 's Orbit list \<Rightarrow> 's error + 's Orbitree" where
  "orbit_loop_local ops G phenom_clust np gridstruc T [] = Inr T"
| "orbit_loop_local ops G phenom_clust np gridstruc T (orb # orbs) =
     (case site_loop_local ops G phenom_clust np (start_cluster orb, T) gridstruc of
        Inl e \<Rightarrow> Inl e
      | Inr st \<Rightarrow> orbit_loop_local ops G phenom_clust np gridstruc (snd st) orbs)"

fun branch_loop_local ::
  "('s, 'g) ClusterOps \<Rightarrow> 'g list \<Rightarrow> 's Cluster \<Rightarrow> 's list \<Rightarrow> 's Orbitree \<Rightarrow> nat list
    \<Rightarrow> 's error + 's Orbitree" where
  "branch_loop_local ops G phenom_clust gridstruc T [] = Inr T"
| "branch_loop_local ops G phenom_clust gridstruc T (np # nps) =
     (if length (branches T ! (np - 1)) = 0 then Inr T
      else case orbit_loop_local ops G phenom_clust np gridstruc T (branches T ! (np - 1)) of
        Inl e \<Rightarrow> Inl e
      | Inr T' \<Rightarrow> branch_loop_local ops G phenom_clust gridstruc T' nps)"

text \<open>\<^verbatim>\<open>generate_local_orbitree\<close>; \<open>G\<close> is the cluster group of the phenomenal cluster.
  Both ways out of the loop over \<open>np\<close> sort the tree and return it.\<close>

definition generate_local_orbitree ::
  "('s, 'g) ClusterOps \<Rightarrow> 'g list \<Rightarrow> 's Cluster \<Rightarrow> 's list \<Rightarrow> 's Orbitree
    \<Rightarrow> 's error + 's Orbitree" where
  "generate_local_orbitree ops G phenom_clust gridstruc T =
     (case branch_loop_local ops G phenom_clust gridstruc (start_tree ops G T)
             [1..<Suc (max_num_sites T)] of
        Inl e \<Rightarrow> Inl e
      | Inr T' \<Rightarrow> Inr (sort_tree T'))"

subsection \<open>generate\_orbitree\_neighbour: the test of the cutoff\<close>



subsection \<open>generate\_orbitree\_from\_proto\_file\<close>

text \<open>
  The function reads a file of prototypes (lines 1225 to 1273) and then builds one orbit
  for each (lines 1279 to 1301). The parser (\<^verbatim>\<open>BP_Parse\<close>) and \<^verbatim>\<open>ClustType::read\<close> are not
  among the sources, so the input of the model is what the reading loop collects for
  every \<^verbatim>\<open>Points:\<close> entry of the file: the number of points \<open>pts\<close>, the declared number
  of equivalents (pushed to \<^verbatim>\<open>n_equiv\<close>), and the cluster read (pushed to
  \<^verbatim>\<open>prototype_list\<close> after \<^verbatim>\<open>calc_properties\<close>).
\<close>

record 's ProtoEntry =
  pts :: nat
  n_equiv :: nat
  clust_read :: "'s Cluster"

text \<open>The loop over \<^verbatim>\<open>prototype_list\<close>: the orbit is pushed to the branch of its size,
  and the number of equivalents generated is compared with the number declared;
  a difference ends the program with \<^verbatim>\<open>exit(1)\<close>, after a message with both numbers
  and the sites of the prototype.\<close>

fun proto_loop ::
  "('s, 'g) ClusterOps \<Rightarrow> 'g list \<Rightarrow> 's Orbitree \<Rightarrow> (nat \<times> 's Cluster) list
    \<Rightarrow> 's error + 's Orbitree" where
  "proto_loop ops sym_group T [] = Inr T"
| "proto_loop ops sym_group T ((n, p) # rest) =
     (if length (branches T) \<le> cluster_size p then Inl IndexOutOfRange
      else let T' = push_orbit (cluster_size p) (new_orbit ops sym_group p) T in
        if n \<noteq> orbit_size (new_orbit ops sym_group p)
        then Inl (EquivalentsMismatch n (orbit_size (new_orbit ops sym_group p)) p)
        else proto_loop ops sym_group T' rest)"

definition generate_orbitree_from_proto_file ::
  "('s, 'g) ClusterOps \<Rightarrow> 'g list \<Rightarrow> 's ProtoEntry list \<Rightarrow> 's Orbitree
    \<Rightarrow> 's error + 's Orbitree" where
  "generate_orbitree_from_proto_file ops sym_group entries T =
     (let n = fold max (map pts entries) 0;
          T1 = resize (n + 1) (T\<lparr>branches := [], max_num_sites := n\<rparr>)
      in case proto_loop ops sym_group T1
                (map (\<lambda>e. (n_equiv e, calc_properties ops (clust_read e))) entries) of
           Inl e \<Rightarrow> Inl e
         | Inr T' \<Rightarrow> Inr (sort_tree T'))"

subsection \<open>generate\_orbitree with a maximal number of clusters\<close>

text \<open>
  \<^verbatim>\<open>generate_orbitree(prim, maxClust)\<close> (lines 560 to 743). The variables of the function
  that live across its loops are the state: the tree, \<open>maxClustLength\<close>, the grid, the
  number \<open>ctr\<close> of grid extensions, the grid index \<open>i\<close> and \<open>numClust\<close>. The grid comes
  from \<^verbatim>\<open>lattice.gridstruc_build\<close>, which is not among the sources: \<open>grid_shell 0\<close> is the
  first grid and \<open>grid_shell k\<close> the sites between the radii of extension \<open>k - 1\<close> and
  \<open>k\<close>. \<open>maxClust\<close> and \<open>numClust\<close> are C++ \<^verbatim>\<open>int\<close>s, modelled without overflow.
\<close>

record 's CountState =
  tree :: "'s Orbitree"
  maxClustLength :: real
  grid :: "'s list"
  ctr :: nat
  i_grid :: nat
  numClust :: int

text \<open>The body of the loop over the grid sites in the block for the pair clusters
  (lines 641 to 657): the cutoff \<^verbatim>\<open>max_length[np]\<close> is not tested here.\<close>

definition try_pair_site ::
  "('s, 'g) ClusterOps \<Rightarrow> 'g list \<Rightarrow> nat \<Rightarrow> 's Cluster \<times> 's CountState \<Rightarrow> 's
    \<Rightarrow> 's Cluster \<times> 's CountState" where
  "try_pair_site ops G np st s =
     (let cs = snd st;
          tclust = calc_properties ops (within_c ops (push_back_site (fst st) s))
      in if m_min_length tclust > min_length (tree cs) \<and> \<not> contains ops (tree cs) tclust
         then (pop_back_site tclust,
               cs\<lparr>tree := push_orbit np (new_orbit ops G tclust) (tree cs),
                  numClust := numClust cs + 1,
                  maxClustLength := (if maxClustLength cs < m_max_length tclust
                                     then m_max_length tclust else maxClustLength cs),
                  i_grid := i_grid cs + 1\<rparr>)
         else (pop_back_site tclust, cs\<lparr>i_grid := i_grid cs + 1\<rparr>))"

fun pair_site_loop ::
  "('s, 'g) ClusterOps \<Rightarrow> 'g list \<Rightarrow> nat \<Rightarrow> 's Cluster \<times> 's CountState \<Rightarrow> 's list
    \<Rightarrow> 's Cluster \<times> 's CountState" where
  "pair_site_loop ops G np st [] = st"
| "pair_site_loop ops G np st (s # rest) = pair_site_loop ops G np (try_pair_site ops G np st s) rest"

text \<open>The loop over the orbits of the branch below (line 631). The grid index \<open>i\<close> is
  not set back: every orbit continues where the one before it stopped.\<close>

fun pair_orbit_loop ::
  "('s, 'g) ClusterOps \<Rightarrow> 'g list \<Rightarrow> nat \<Rightarrow> 's CountState \<Rightarrow> 's Orbit list \<Rightarrow> 's CountState" where
  "pair_orbit_loop ops G np cs [] = cs"
| "pair_orbit_loop ops G np cs (orb # orbs) =
     pair_orbit_loop ops G np
       (snd (pair_site_loop ops G np (start_cluster orb, cs) (drop (i_grid cs) (grid cs))))
       orbs"

text \<open>One round of the \<^verbatim>\<open>do \<dots> while(numClust < maxClust)\<close> loop: the orbits are
  visited, and, if too few clusters have been found, the next shell is appended to the
  grid.\<close>

definition pair_round ::
  "('s, 'g) ClusterOps \<Rightarrow> 'g list \<Rightarrow> int \<Rightarrow> (nat \<Rightarrow> 's list) \<Rightarrow> nat \<Rightarrow> 's CountState
    \<Rightarrow> 's CountState" where
  "pair_round ops G maxClust grid_shell np cs =
     (let cs1 = pair_orbit_loop ops G np cs (branches (tree cs) ! (np - 1)) in
      if numClust cs1 < maxClust
      then cs1\<lparr>ctr := ctr cs1 + 1, grid := grid cs1 @ grid_shell (ctr cs1 + 1)\<rparr>
      else cs1)"

text \<open>The loop itself may run forever (no shell may hold a new cluster), so it is a
  partial function: \<open>None\<close> is the run that does not return.\<close>

partial_function (option) pair_do_while ::
  "('s, 'g) ClusterOps \<Rightarrow> 'g list \<Rightarrow> int \<Rightarrow> (nat \<Rightarrow> 's list) \<Rightarrow> nat \<Rightarrow> 's CountState
    \<Rightarrow> 's CountState option" where
  "pair_do_while ops G maxClust grid_shell np cs =
     (if numClust (pair_round ops G maxClust grid_shell np cs) < maxClust
      then pair_do_while ops G maxClust grid_shell np (pair_round ops G maxClust grid_shell np cs)
      else Some (pair_round ops G maxClust grid_shell np cs))"

declare pair_do_while.simps [code]

text \<open>\<^verbatim>\<open>at(np).remove(i)\<close>.\<close>

definition remove_at :: "nat \<Rightarrow> 'a list \<Rightarrow> 'a list" where
  "remove_at i xs = take i xs @ drop (Suc i) xs"

text \<open>The loop that drops the orbits beyond the cutoff (lines 680 to 686): after a
  removal \<open>i\<close> is decreased and increased again, so the same index is looked at next.\<close>

function truncate_loop :: "real \<Rightarrow> nat \<Rightarrow> 's OrbitBranch \<Rightarrow> 's OrbitBranch" where
  "truncate_loop cutOff i b =
     (if i < length b
      then (if orbit_max_length (b ! i) > cutOff
            then truncate_loop cutOff i (remove_at i b)
            else truncate_loop cutOff (i + 1) b)
      else b)"
  by pat_completeness auto
termination
  by (relation "measure (\<lambda>(cutOff, i, b). length b - i)") (auto simp: remove_at_def)

declare truncate_loop.simps [simp del]

text \<open>The end of the block (lines 675 to 686): the branch is sorted, the cutoff is the
  length of the orbit with index \<open>maxClust - 1\<close>, and the orbits from index \<open>maxClust\<close> on
  are filtered.\<close>

definition truncate_pairs :: "int \<Rightarrow> nat \<Rightarrow> 's CountState \<Rightarrow> 's error + 's CountState" where
  "truncate_pairs maxClust np cs =
     (let T1 = sort_np np (tree cs); b = branches T1 ! np in
      if maxClust \<le> 0 \<or> length b \<le> nat (maxClust - 1) then Inl IndexOutOfRange
      else let cutOff = orbit_max_length (b ! nat (maxClust - 1)) in
        Inr (cs\<lparr>tree := T1\<lparr>branches := (branches T1)[np := truncate_loop cutOff (nat maxClust) b]\<rparr>\<rparr>))"

definition pair_block ::
  "('s, 'g) ClusterOps \<Rightarrow> 'g list \<Rightarrow> int \<Rightarrow> (nat \<Rightarrow> 's list) \<Rightarrow> nat \<Rightarrow> 's CountState
    \<Rightarrow> ('s error + 's CountState) option" where
  "pair_block ops G maxClust grid_shell np cs =
     (case pair_do_while ops G maxClust grid_shell np
             (cs\<lparr>maxClustLength := 0, i_grid := 0, numClust := 0\<rparr>) of
        None \<Rightarrow> None
      | Some cs1 \<Rightarrow> Some (truncate_pairs maxClust np cs1))"

text \<open>The loop over \<open>np\<close> (line 616). For \<open>np \<noteq> 2\<close> the cutoff \<^verbatim>\<open>max_length[np]\<close> is set
  to \<open>maxClustLength\<close> and the branch grows as in the radius mode, on the grid as it
  is then.\<close>

fun count_branch_loop ::
  "('s, 'g) ClusterOps \<Rightarrow> 'g list \<Rightarrow> int \<Rightarrow> (nat \<Rightarrow> 's list) \<Rightarrow> 's CountState \<Rightarrow> nat list
    \<Rightarrow> ('s error + 's CountState) option" where
  "count_branch_loop ops G maxClust grid_shell cs [] = Some (Inr cs)"
| "count_branch_loop ops G maxClust grid_shell cs (np # nps) =
     (if length (branches (tree cs) ! (np - 1)) = 0 then Some (Inl (CannotEnumerate np))
      else if np = 2 then
        (case pair_block ops G maxClust grid_shell np cs of
           None \<Rightarrow> None
         | Some (Inl e) \<Rightarrow> Some (Inl e)
         | Some (Inr cs') \<Rightarrow> count_branch_loop ops G maxClust grid_shell cs' nps)
      else if length (max_length (tree cs)) \<le> np then Some (Inl IndexOutOfRange)
      else
        (case orbit_loop ops G np (grid cs)
                ((tree cs)\<lparr>max_length := (max_length (tree cs))[np := maxClustLength cs]\<rparr>)
                (branches (tree cs) ! (np - 1)) of
           Inl e \<Rightarrow> Some (Inl e)
         | Inr T' \<Rightarrow> count_branch_loop ops G maxClust grid_shell (cs\<lparr>tree := T'\<rparr>) nps))"

text \<open>The function. \<open>maxClustLength\<close> is read at \<open>np = 1\<close> before it has been given a
  value; \<open>uninit\<close> is the value it has then.\<close>

definition generate_orbitree_max_clust ::
  "('s, 'g) ClusterOps \<Rightarrow> 'g list \<Rightarrow> int \<Rightarrow> (nat \<Rightarrow> 's list) \<Rightarrow> real \<Rightarrow> 's Orbitree
    \<Rightarrow> ('s error + 's Orbitree) option" where
  "generate_orbitree_max_clust ops G maxClust grid_shell uninit T =
     (case count_branch_loop ops G maxClust grid_shell
             \<lparr>tree = start_tree ops G T, maxClustLength = uninit, grid = grid_shell 0,
              ctr = 0, i_grid = 0, numClust = 0\<rparr>
             [1..<Suc (max_num_sites T)] of
        None \<Rightarrow> None
      | Some (Inl e) \<Rightarrow> Some (Inl e)
      | Some (Inr cs) \<Rightarrow> Some (Inr (sort_tree (tree cs))))"

subsection \<open>get\_hierarchy\<close>

text \<open>
  Modelled from the spec: the values of \<^verbatim>\<open>Counter<Array<int> >\<close> between an array of zeros
  and an array of ones with increment one, in the order in which \<^verbatim>\<open>++site_counter\<close>
  visits them (the counter class is not among the sources): the order of a binary
  counter whose first digit changes fastest.
\<close>

fun counter_values :: "nat \<Rightarrow> nat list list" where
  "counter_values 0 = [[]]"
| "counter_values (Suc k) = concat (map (\<lambda>m. [0 # m, 1 # m]) (counter_values k))"

text \<open>The sites of the prototype that a value of the counter selects.\<close>

definition selected_sites :: "'s list \<Rightarrow> nat list \<Rightarrow> 's list" where
  "selected_sites proto_sites v = map fst (filter (\<lambda>(s, bit). bit \<noteq> 0) (zip proto_sites v))"

text \<open>
  The \<^verbatim>\<open>do \<dots> while(++site_counter)\<close> loop of \<^verbatim>\<open>get_hierarchy\<close> (lines 1455 to 1469) for
  one orbit. The values \<open>min\<close> (no site) and \<open>max\<close> (all sites) are skipped. \<open>tclust\<close> is
  declared before the loop (line 1446) and the selected sites are pushed to it in every
  round; nothing empties it between two rounds. The row collects the results of
  \<^verbatim>\<open>find(tclust)\<close>.
\<close>

fun subcluster_loop ::
  "('s, 'g) ClusterOps \<Rightarrow> 's Orbitree \<Rightarrow> 's list \<Rightarrow> 's Cluster \<times> nat list \<Rightarrow> nat list list
    \<Rightarrow> 's Cluster \<times> nat list" where
  "subcluster_loop ops T proto_sites st [] = st"
| "subcluster_loop ops T proto_sites st (v # vs) =
     (if v = replicate (length proto_sites) 0 \<or> v = replicate (length proto_sites) 1
      then subcluster_loop ops T proto_sites st vs
      else let tclust = (fst st)\<lparr>sites := sites (fst st) @ selected_sites proto_sites v\<rparr>
           in subcluster_loop ops T proto_sites
                (tclust, snd st @ [find_clust ops T tclust]) vs)"

definition subcluster_row :: "('s, 'g) ClusterOps \<Rightarrow> 's Orbitree \<Rightarrow> 's Orbit \<Rightarrow> nat list" where
  "subcluster_row ops T orb =
     snd (subcluster_loop ops T (sites (prototype orb)) (empty_cluster, [])
            (counter_values (length (sites (prototype orb)))))"

text \<open>\<^verbatim>\<open>get_hierarchy\<close>: the table \<^verbatim>\<open>subcluster\<close>, one empty row for the empty cluster and one
  row for every orbit of the branches \<open>np \<ge> 1\<close>.\<close>

definition get_hierarchy :: "('s, 'g) ClusterOps \<Rightarrow> 's Orbitree \<Rightarrow> nat list list" where
  "get_hierarchy ops T =
     [] # concat (map (\<lambda>b. map (subcluster_row ops T) b) (drop 1 (branches T)))"

text \<open>What the specification asks of a row: for every proper, non-empty subset of the
  sites of the prototype, in the order of the counter, the index that \<^verbatim>\<open>find\<close> gives for
  the cluster of these sites, brought to its canonical form.\<close>

definition subcluster_row_spec :: "('s, 'g) ClusterOps \<Rightarrow> 's Orbitree \<Rightarrow> 's Orbit \<Rightarrow> nat list" where
  "subcluster_row_spec ops T orb =
     map (\<lambda>v. find_clust ops T
            (calc_properties ops (within_c ops
               (empty_cluster\<lparr>sites := selected_sites (sites (prototype orb)) v\<rparr>))))
       (filter (\<lambda>v. v \<noteq> replicate (length (sites (prototype orb))) 0
                  \<and> v \<noteq> replicate (length (sites (prototype orb))) 1)
          (counter_values (length (sites (prototype orb)))))"

section \<open>Orbit construction\<close>


text \<open>Two prepared clusters are the same equivalent when neither is less than the
  other.\<close>

definition compare_equal :: "('c \<Rightarrow> 'c \<Rightarrow> bool) \<Rightarrow> 'c \<Rightarrow> 'c \<Rightarrow> bool" where
  "compare_equal cmp a b = (\<not> cmp a b \<and> \<not> cmp b a)"

text \<open>Step 2: one representative for every distinct image, in the order in which the
  images are met first.\<close>

fun deduplicate :: "('c \<Rightarrow> 'c \<Rightarrow> bool) \<Rightarrow> 'c list \<Rightarrow> 'c list \<Rightarrow> 'c list" where
  "deduplicate cmp seen [] = seen"
| "deduplicate cmp seen (x # xs) =
     (if list_ex (compare_equal cmp x) seen then deduplicate cmp seen xs
      else deduplicate cmp (seen @ [x]) xs)"





text \<open>The comparison is total on prepared clusters: clusters that compare equal are
  the same cluster.\<close>

definition is_total :: "('c \<Rightarrow> 'c \<Rightarrow> bool) \<Rightarrow> bool" where
  "is_total cmp = (\<forall>a b. compare_equal cmp a b \<longleftrightarrow> a = b)"

subsection \<open>Predicates of the statements\<close>

text \<open>The acceptance rule of the growth transition, as the specification words it: a
  candidate is accepted if it has one site or lies within the two length cutoffs, and
  if no orbit with a prototype of its size contains it already.\<close>

definition accept_candidate ::
  "('s, 'g) ClusterOps \<Rightarrow> 's Orbitree \<Rightarrow> nat \<Rightarrow> 's Cluster \<Rightarrow> bool" where
  "accept_candidate ops T np candidate =
     ((cluster_size candidate = 1
        \<or> (m_max_length candidate < max_length T ! np \<and> m_min_length candidate > min_length T))
      \<and> \<not> list_ex (\<lambda>orb. cluster_size (prototype orb) = cluster_size candidate
                          \<and> orbit_contains ops orb candidate) (concat (branches T)))"

text \<open>What the statements need from the parameters: an orbit of the tree contains only
  clusters with as many sites as its prototype, and \<^verbatim>\<open>within\<close> and \<^verbatim>\<open>calc_properties\<close> keep
  the number of sites.\<close>

definition same_size_lookup :: "('s, 'g) ClusterOps \<Rightarrow> 's Orbitree \<Rightarrow> bool" where
  "same_size_lookup ops T =
     (\<forall>orb\<in>set (concat (branches T)). \<forall>c.
        orbit_contains ops orb c \<longrightarrow> cluster_size (prototype orb) = cluster_size c)"

definition keeps_size :: "('s, 'g) ClusterOps \<Rightarrow> bool" where
  "keeps_size ops = (\<forall>c. cluster_size (calc_properties ops (within_c ops c)) = cluster_size c)"

text \<open>A tree \<open>T'\<close> that came from \<open>T\<close> by pushing orbits: the same branches, none
  shorter, the same cutoffs.\<close>

definition grows :: "'s Orbitree \<Rightarrow> 's Orbitree \<Rightarrow> bool" where
  "grows T T' =
     (length (branches T') = length (branches T)
      \<and> (\<forall>k<length (branches T). length (branches T ! k) \<le> length (branches T' ! k))
      \<and> max_length T' = max_length T)"

text \<open>An entry of the prototype file whose declared number of equivalents is the number
  that the symmetry group generates.\<close>

definition declared_right :: "('s, 'g) ClusterOps \<Rightarrow> 'g list \<Rightarrow> 's ProtoEntry \<Rightarrow> bool" where
  "declared_right ops sym_group e =
     (n_equiv e = length (get_equivalent ops sym_group (calc_properties ops (clust_read e))))"


text \<open>The state after \<open>n\<close> rounds of the loop for the pair clusters.\<close>

fun pair_rounds ::
  "('s, 'g) ClusterOps \<Rightarrow> 'g list \<Rightarrow> int \<Rightarrow> (nat \<Rightarrow> 's list) \<Rightarrow> nat \<Rightarrow> nat \<Rightarrow> 's CountState
    \<Rightarrow> 's CountState" where
  "pair_rounds ops G maxClust grid_shell np 0 cs = cs"
| "pair_rounds ops G maxClust grid_shell np (Suc n) cs =
     pair_rounds ops G maxClust grid_shell np n (pair_round ops G maxClust grid_shell np cs)"

text \<open>The test of a candidate in the block for the pair clusters: the cluster \<open>tclust\<close>
  with the site \<open>s\<close> is a new cluster of the tree.\<close>

definition accepts_site :: "('s, 'g) ClusterOps \<Rightarrow> 's Orbitree \<Rightarrow> 's Cluster \<Rightarrow> 's \<Rightarrow> bool" where
  "accepts_site ops T tclust s =
     (let c = calc_properties ops (within_c ops (push_back_site tclust s))
      in m_min_length c > min_length T \<and> \<not> contains ops T c)"

text \<open>Every shell that is appended after a round that has found too few clusters holds
  a site, and its first site, added to the prototype of the first orbit of the branch
  below, is a new cluster of the tree of that round.\<close>

definition fresh_shells ::
  "('s, 'g) ClusterOps \<Rightarrow> 'g list \<Rightarrow> int \<Rightarrow> (nat \<Rightarrow> 's list) \<Rightarrow> nat \<Rightarrow> 's Orbit
    \<Rightarrow> 's CountState \<Rightarrow> bool" where
  "fresh_shells ops G maxClust grid_shell np orb0 cs =
     (\<forall>k. let c = pair_rounds ops G maxClust grid_shell np (Suc k) cs in
        numClust c < maxClust \<longrightarrow>
          grid_shell (ctr c) \<noteq> []
          \<and> accepts_site ops (tree c) (start_cluster orb0) (hd (grid_shell (ctr c))))"

text \<open>Branch \<open>k\<close> of the tree holds the orbits whose prototypes have \<open>k\<close> sites.\<close>

definition branches_by_size :: "'s Orbitree \<Rightarrow> bool" where
  "branches_by_size T =
     (\<forall>k<length (branches T). \<forall>orb\<in>set (branches T ! k). cluster_size (prototype orb) = k)"

section \<open>A linear chain of sites\<close>

text \<open>
  The examples run the Orbitree code on a chain: the sites are the integers, the
  distance of two sites is the absolute value of their difference, and the symmetry
  operations are the multiplications by \<open>1\<close> and \<open>-1\<close>, acting modulo translations.
\<close>

fun pair_dists :: "int list \<Rightarrow> int list" where
  "pair_dists [] = []"
| "pair_dists (x # xs) = map (\<lambda>y. \<bar>y - x\<bar>) xs @ pair_dists xs"

definition chain_calc :: "int Cluster \<Rightarrow> int Cluster" where
  "chain_calc c =
     (let ds = pair_dists (sites c) in
      c\<lparr>m_min_length := (case ds of [] \<Rightarrow> 0 | d # r \<Rightarrow> real_of_int (foldr min r d)),
        m_max_length := real_of_int (foldr max ds 0)\<rparr>)"

definition chain_within :: "int Cluster \<Rightarrow> int Cluster" where
  "chain_within c = c\<lparr>sites := (case sites c of [] \<Rightarrow> [] | x # xs \<Rightarrow> map (\<lambda>y. y - x) (x # xs))\<rparr>"

definition chain_norm :: "int list \<Rightarrow> int list" where
  "chain_norm xs = (case sort xs of [] \<Rightarrow> [] | x # r \<Rightarrow> map (\<lambda>y. y - x) (x # r))"

definition chain_cluster :: "int list \<Rightarrow> int Cluster" where
  "chain_cluster xs = chain_calc \<lparr>sites = xs, m_min_length = 0, m_max_length = 0\<rparr>"

definition chain_equivalent :: "int list \<Rightarrow> int Cluster \<Rightarrow> int Cluster list" where
  "chain_equivalent G c =
     map chain_cluster (remdups (map (\<lambda>g. chain_norm (map (\<lambda>x. g * x) (sites c))) G))"

definition chain_contains :: "int Orbit \<Rightarrow> int Cluster \<Rightarrow> bool" where
  "chain_contains orb c =
     (chain_norm (sites c) \<in> set (map (\<lambda>e. chain_norm (sites e)) (equivalents orb)))"

definition chain_ops :: "(int, int) ClusterOps" where
  "chain_ops = \<lparr>within_c = chain_within, calc_properties = chain_calc,
     calc_properties_phenom = (\<lambda>phenom_clust c. chain_calc c),
     get_equivalent = chain_equivalent, orbit_contains = chain_contains\<rparr>"

definition chain_group :: "int list" where
  "chain_group = [1, - 1]"

text \<open>The orbit of the empty cluster, the orbit of the point cluster and the orbit of
  the nearest-neighbour pair.\<close>

definition empty_orbit :: "int Orbit" where
  "empty_orbit = \<lparr>prototype = empty_cluster, equivalents = [chain_cluster []]\<rparr>"

definition point_orbit :: "int Orbit" where
  "point_orbit = \<lparr>prototype = chain_cluster [0], equivalents = [chain_cluster [0]]\<rparr>"

definition pair_orbit :: "int Orbit" where
  "pair_orbit = \<lparr>prototype = chain_cluster [0, 1], equivalents = [chain_cluster [0, 1]]\<rparr>"

text \<open>A tree with the empty and the point orbit, no pair yet, and the cutoffs
  \<open>max_length[2] = 1\<close> and \<open>min_length = 0\<close>.\<close>

definition chain_tree :: "int Orbitree" where
  "chain_tree = \<lparr>branches = [[empty_orbit], [point_orbit], []], max_num_sites = 2,
     max_length = [0, 0, 1], min_length = 0\<rparr>"

text \<open>The parameters of an enumeration up to pairs, on a tree without branches.\<close>

definition chain_start :: "int Orbitree" where
  "chain_start = \<lparr>branches = [], max_num_sites = 2, max_length = [0, 0, 5 / 2],
     min_length = 0\<rparr>"

text \<open>Two prototype files for the chain: the point and the nearest-neighbour pair. The
  pair has one equivalent modulo translations; the second file declares two.\<close>

definition chain_file_right :: "int ProtoEntry list" where
  "chain_file_right =
     [\<lparr>pts = 1, n_equiv = 1, clust_read = chain_cluster [0]\<rparr>,
      \<lparr>pts = 2, n_equiv = 1, clust_read = chain_cluster [0, 1]\<rparr>]"

definition chain_file_wrong :: "int ProtoEntry list" where
  "chain_file_wrong =
     [\<lparr>pts = 1, n_equiv = 1, clust_read = chain_cluster [0]\<rparr>,
      \<lparr>pts = 2, n_equiv = 2, clust_read = chain_cluster [0, 1]\<rparr>]"

text \<open>The shells of the chain: the first grid holds the sites \<open>-1, 0, 1\<close>, shell \<open>k\<close>
  the two sites at distance \<open>k + 1\<close> from the origin.\<close>

definition chain_shell :: "nat \<Rightarrow> int list" where
  "chain_shell k = (if k = 0 then [- 1, 0, 1] else [- (int k + 1), int k + 1])"

text \<open>The chain without symmetry: the only operation is the identity and clusters are
  compared site by site, so that the two pairs \<open>[0, -1]\<close> and \<open>[0, 1]\<close> are different
  orbits of the same length. Its shells are \<open>-1, 1\<close>, then \<open>-2, 2, 3\<close>, then one site
  each.\<close>

definition plain_ops :: "(int, int) ClusterOps" where
  "plain_ops = \<lparr>within_c = chain_within, calc_properties = chain_calc,
     calc_properties_phenom = (\<lambda>phenom_clust c. chain_calc c),
     get_equivalent = (\<lambda>G c. [c]),
     orbit_contains = (\<lambda>orb c. sites c \<in> set (map sites (equivalents orb)))\<rparr>"

definition plain_shell :: "nat \<Rightarrow> int list" where
  "plain_shell k = (if k = 0 then [- 1, 1] else if k = 1 then [- 2, 2, 3] else [int k + 2])"


definition plain_state :: "int CountState" where
  "plain_state = \<lparr>tree = chain_start\<lparr>branches := [[empty_orbit], [point_orbit], []]\<rparr>,
     maxClustLength = 0, grid = plain_shell 0, ctr = 0, i_grid = 0, numClust = 0\<rparr>"

text \<open>A chain tree up to triplets: the pairs of lengths one and two and the triplet
  \<open>[0, 1, 2]\<close>.\<close>

definition pair2_orbit :: "int Orbit" where
  "pair2_orbit = \<lparr>prototype = chain_cluster [0, 2], equivalents = [chain_cluster [0, 2]]\<rparr>"

definition triplet_orbit :: "int Orbit" where
  "triplet_orbit = \<lparr>prototype = chain_cluster [0, 1, 2], equivalents = [chain_cluster [0, 1, 2]]\<rparr>"

definition triplet_tree :: "int Orbitree" where
  "triplet_tree = \<lparr>branches = [[empty_orbit], [point_orbit], [pair_orbit, pair2_orbit],
       [triplet_orbit]],
     max_num_sites = 3, max_length = [0, 0, 5 / 2, 5 / 2], min_length = 0\<rparr>"



section \<open>Properties of the preparation\<close>

subsection \<open>The empty cluster\<close>

text \<open>
  C10. For every SymCompare variant, \<^verbatim>\<open>spatial_prepare\<close> and \<^verbatim>\<open>representation_prepare\<close>
  return the empty (0-site) cluster unchanged: the empty cluster is its own prepared
  form under every periodicity mode.
\<close>

theorem empty_cluster_prepared:
  "spatial_prepare_impl v [] = [] \<and> representation_prepare_impl v [] = []"
  by (cases v) (simp_all add: cluster_sort_def)

subsection \<open>Preparation is idempotent\<close>

text \<open>A difference or sum of two components that lies in the range of \<^verbatim>\<open>long\<close> is the
  difference or sum of their signed values, so that a translation that is exact at
  every site keeps the order of the sites.\<close>

lemma sint_minus_fits:
  fixes a d :: "64 word"
  shows "fits_long (sint a - sint d) \<Longrightarrow> sint (a - d) = sint a - sint d"
  by (simp add: fits_long_def sint_word_ariths signed_take_bit_int_eq_self)

lemma sint_plus_fits:
  fixes a d :: "64 word"
  shows "fits_long (sint a + sint d) \<Longrightarrow> sint (a + d) = sint a + sint d"
  by (simp add: fits_long_def sint_word_ariths signed_take_bit_int_eq_self)

lemma coord_key_inj: "coord_key u = coord_key v \<longleftrightarrow> u = v"
  by (cases u; cases v) (auto simp: signed_word_eqI)

lemma key_shift_mono: "x \<le> y \<Longrightarrow> key_shift t x \<le> key_shift t y"
  by (cases x; cases y; cases t) (auto simp: less_eq_prod_def less_prod_def)

lemma sorted_map_mono:
  fixes f :: "'a::linorder \<Rightarrow> 'b::linorder"
  shows "sorted xs \<Longrightarrow> (\<And>x y. x \<le> y \<Longrightarrow> f x \<le> f y) \<Longrightarrow> sorted (map f xs)"
  by (induction xs) auto

lemma key_minus:
  "minus_fits (unitcell u) t \<Longrightarrow>
   coord_key (uc_minus (unitcell u) t, sublat u)
     = key_shift (case t of (d, e, f) \<Rightarrow> (- sint d, - sint e, - sint f)) (coord_key u)"
  by (cases u; cases t) (auto simp: unitcell_def sublat_def sint_minus_fits)

lemma key_plus:
  "plus_fits (unitcell u) t \<Longrightarrow>
   coord_key (uc_plus (unitcell u) t, sublat u)
     = key_shift (case t of (d, e, f) \<Rightarrow> (sint d, sint e, sint f)) (coord_key u)"
  by (cases u; cases t) (auto simp: unitcell_def sublat_def sint_plus_fits)

lemma sorted_cluster_minus:
  assumes "sorted (map coord_key obj)" and "list_all (\<lambda>u. minus_fits (unitcell u) t) obj"
  shows "sorted (map coord_key (cluster_minus obj t))"
proof -
  have "map coord_key (cluster_minus obj t)
      = map (key_shift (case t of (d, e, f) \<Rightarrow> (- sint d, - sint e, - sint f))) (map coord_key obj)"
    using assms(2) by (simp add: cluster_minus_def list_all_iff key_minus)
  also have "sorted \<dots>"
    using assms(1) by (rule sorted_map_mono) (rule key_shift_mono)
  finally show ?thesis .
qed

lemma sorted_cluster_plus:
  assumes "sorted (map coord_key obj)" and "list_all (\<lambda>u. plus_fits (unitcell u) t) obj"
  shows "sorted (map coord_key (cluster_plus obj t))"
proof -
  have "map coord_key (cluster_plus obj t)
      = map (key_shift (case t of (d, e, f) \<Rightarrow> (sint d, sint e, sint f))) (map coord_key obj)"
    using assms(2) by (simp add: cluster_plus_def list_all_iff key_plus)
  also have "sorted \<dots>"
    using assms(1) by (rule sorted_map_mono) (rule key_shift_mono)
  finally show ?thesis .
qed

lemma cluster_sort_sorted: "sorted (map coord_key obj) \<Longrightarrow> cluster_sort obj = obj"
  by (simp add: cluster_sort_def sort_key_id_if_sorted)

lemma sorted_cluster_sort: "sorted (map coord_key (cluster_sort obj))"
  by (simp add: cluster_sort_def)

lemma cluster_sort_idem: "cluster_sort (cluster_sort obj) = cluster_sort obj"
  by (simp add: cluster_sort_sorted sorted_cluster_sort)

lemma cluster_sort_nonempty: "obj \<noteq> [] \<Longrightarrow> cluster_sort obj \<noteq> []"
  by (metis cluster_sort_def length_sort length_0_conv)

lemma set_cluster_sort: "set (cluster_sort obj) = set obj"
  by (simp add: cluster_sort_def)

lemma filter_eq_count: "filter (\<lambda>x. k = x) zs = replicate (count (mset zs) k) k"
  by (induction zs) auto

lemma cluster_sort_mset:
  assumes "mset xs = mset ys"
  shows "cluster_sort xs = cluster_sort ys"
  unfolding cluster_sort_def
proof (rule properties_for_sort_key)
  show "mset (sort_key coord_key ys) = mset xs" using assms by simp
  show "sorted (map coord_key (sort_key coord_key ys))" by simp
  fix k assume "k \<in> set (sort_key coord_key ys)"
  have "filter (\<lambda>x. k = x) (sort_key coord_key ys) = filter (\<lambda>x. k = x) xs"
    unfolding filter_eq_count using assms by simp
  then show "filter (\<lambda>x. coord_key k = coord_key x) (sort_key coord_key ys)
      = filter (\<lambda>x. coord_key k = coord_key x) xs"
    by (simp add: coord_key_inj)
qed

lemma uc_minus_self: "uc_minus c c = (0, 0, 0)"
  by (cases c) simp

lemma uc_plus_minus: "uc_plus c (uc_minus d c) = d"
  by (cases c; cases d) simp

lemma cluster_minus_zero: "cluster_minus obj (0, 0, 0) = obj"
  unfolding cluster_minus_def by (induction obj) (auto simp: unitcell_def sublat_def)

lemma cluster_plus_zero: "cluster_plus obj (0, 0, 0) = obj"
  unfolding cluster_plus_def by (induction obj) (auto simp: unitcell_def sublat_def)

lemma hd_cluster_minus:
  "obj \<noteq> [] \<Longrightarrow> hd (cluster_minus obj t) = (uc_minus (unitcell (hd obj)) t, sublat (hd obj))"
  by (cases obj) (simp_all add: cluster_minus_def)

lemma hd_cluster_plus:
  "obj \<noteq> [] \<Longrightarrow> hd (cluster_plus obj t) = (uc_plus (unitcell (hd obj)) t, sublat (hd obj))"
  by (cases obj) (simp_all add: cluster_plus_def)

text \<open>A sorted cluster whose first site has been moved to the origin cell is a fixed
  point of both steps of the prim-periodic variant.\<close>

lemma prim_fixed:
  assumes "sorted (map coord_key S)" "S \<noteq> []"
    and "list_all (\<lambda>u. minus_fits (unitcell u) (unitcell (position S))) S"
  defines "P \<equiv> cluster_minus S (unitcell (position S))"
  shows "spatial_prepare_impl PrimPeriodicSymCompare P = P"
    and "representation_prepare_impl PrimPeriodicSymCompare P = P"
proof -
  have ne: "P \<noteq> []" using assms by (simp add: cluster_minus_def)
  have hdP: "unitcell (position P) = (0, 0, 0)"
    using assms by (simp add: position_def hd_cluster_minus uc_minus_self unitcell_def)
  show "spatial_prepare_impl PrimPeriodicSymCompare P = P"
    using ne hdP by (simp add: cluster_minus_zero)
  have "sorted (map coord_key P)" unfolding P_def using assms(1,3) by (rule sorted_cluster_minus)
  then show "representation_prepare_impl PrimPeriodicSymCompare P = P"
    by (simp add: cluster_sort_sorted)
qed

lemma scel_fixed:
  assumes "sorted (map coord_key S)" "S \<noteq> []" "within_functor f"
    and "list_all (\<lambda>u. plus_fits (unitcell u)
            (uc_minus (unitcell (f (position S))) (unitcell (position S)))) S"
  defines "P \<equiv> cluster_plus S (uc_minus (unitcell (f (position S))) (unitcell (position S)))"
  shows "spatial_prepare_impl (ScelPeriodicSymCompare f) P = P"
    and "representation_prepare_impl (ScelPeriodicSymCompare f) P = P"
proof -
  have ne: "P \<noteq> []" using assms by (simp add: cluster_plus_def)
  have "position P = (unitcell (f (position S)), sublat (position S))"
    using assms by (simp add: position_def hd_cluster_plus uc_plus_minus)
  also have "\<dots> = f (position S)"
  proof -
    have "sublat (f (position S)) = sublat (position S)"
      using assms(3) unfolding within_functor_def by blast
    then show ?thesis by (simp add: unitcell_def sublat_def prod_eq_iff)
  qed
  finally have pos: "position P = f (position S)" .
  have "f (f (position S)) = f (position S)"
    using assms(3) unfolding within_functor_def by blast
  then have "f (position P) = position P"
    using pos by simp
  then show "spatial_prepare_impl (ScelPeriodicSymCompare f) P = P"
    using ne by (simp add: uc_minus_self cluster_plus_zero)
  have "sorted (map coord_key P)" unfolding P_def using assms(1,4) by (rule sorted_cluster_plus)
  then show "representation_prepare_impl (ScelPeriodicSymCompare f) P = P"
    by (simp add: cluster_sort_sorted)
qed

lemma within_fixed:
  assumes "within_functor f"
  shows "cluster_sort (bring_within f (cluster_sort (bring_within f obj)))
       = cluster_sort (bring_within f obj)"
proof -
  have ff: "f (f u) = f u" for u
    using assms unfolding within_functor_def by blast
  have "mset (map f (cluster_sort (map f obj))) = mset (map f obj)"
    by (simp add: cluster_sort_def multiset.map_comp comp_def ff)
  then show ?thesis unfolding bring_within_def by (rule cluster_sort_mset)
qed

lemma list_all_cluster_sort: "list_all Q (cluster_sort obj) = list_all Q obj"
  by (simp add: list_all_iff set_cluster_sort)

lemma prepare_fixedI:
  "spatial_prepare_impl v P = P \<Longrightarrow> representation_prepare_impl v P = P \<Longrightarrow>
   spatial_prepare_impl v P = P \<and> representation_prepare_impl v P = P \<and> prepare ord v P = P"
  by (cases ord) simp_all

lemma prepare_no_translation:
  "\<not> translates v \<Longrightarrow> prepare ord v X = prepare RepresentationFirst v X"
  by (cases v; cases ord) simp_all

lemma prepare_representation_first:
  assumes "functor_ok v" and "translation_fits v X"
  shows "spatial_prepare_impl v (prepare RepresentationFirst v X) = prepare RepresentationFirst v X
       \<and> representation_prepare_impl v (prepare RepresentationFirst v X) = prepare RepresentationFirst v X
       \<and> prepare ord v (prepare RepresentationFirst v X) = prepare RepresentationFirst v X"
proof (cases v)
  case AperiodicSymCompare
  then show ?thesis by (cases ord) (simp_all add: cluster_sort_idem)
next
  case PrimPeriodicSymCompare
  show ?thesis
  proof (cases "X = []")
    case True
    then show ?thesis using PrimPeriodicSymCompare by (cases ord) simp_all
  next
    case False
    then have ne: "cluster_sort X \<noteq> []" by (rule cluster_sort_nonempty)
    have srt: "sorted (map coord_key (cluster_sort X))" by (rule sorted_cluster_sort)
    have fit: "list_all (\<lambda>u. minus_fits (unitcell u) (unitcell (position (cluster_sort X))))
        (cluster_sort X)"
      using assms(2) unfolding PrimPeriodicSymCompare by (simp add: list_all_cluster_sort)
    have P: "prepare RepresentationFirst PrimPeriodicSymCompare X
        = cluster_minus (cluster_sort X) (unitcell (position (cluster_sort X)))"
      using False ne by simp
    show ?thesis
      unfolding PrimPeriodicSymCompare
      by (rule prepare_fixedI) (simp_all only: P prim_fixed[OF srt ne fit])
  qed
next
  case (ScelPeriodicSymCompare f)
  then have f: "within_functor f" using assms by simp
  show ?thesis
  proof (cases "X = []")
    case True
    then show ?thesis using ScelPeriodicSymCompare by (cases ord) simp_all
  next
    case False
    then have ne: "cluster_sort X \<noteq> []" by (rule cluster_sort_nonempty)
    have srt: "sorted (map coord_key (cluster_sort X))" by (rule sorted_cluster_sort)
    have fit: "list_all (\<lambda>u. plus_fits (unitcell u)
         (uc_minus (unitcell (f (position (cluster_sort X))))
            (unitcell (position (cluster_sort X))))) (cluster_sort X)"
      using assms(2) unfolding ScelPeriodicSymCompare by (simp add: list_all_cluster_sort)
    have P: "prepare RepresentationFirst (ScelPeriodicSymCompare f) X = cluster_plus (cluster_sort X)
        (uc_minus (unitcell (f (position (cluster_sort X)))) (unitcell (position (cluster_sort X))))"
      using False ne by (simp add: Let_def)
    show ?thesis
      unfolding ScelPeriodicSymCompare
      by (rule prepare_fixedI) (simp_all only: P scel_fixed[OF srt ne f fit])
  qed
next
  case (WithinScelSymCompare f)
  then have f: "within_functor f" using assms by simp
  show ?thesis
  proof (cases "X = []")
    case True
    then show ?thesis using WithinScelSymCompare by (cases ord) simp_all
  next
    case False
    then have ne: "cluster_sort (bring_within f X) \<noteq> []"
      by (simp add: cluster_sort_nonempty bring_within_def)
    have P: "prepare RepresentationFirst (WithinScelSymCompare f) X = cluster_sort (bring_within f X)"
      using False by simp
    show ?thesis
      unfolding WithinScelSymCompare
      by (rule prepare_fixedI) (simp_all add: P ne within_fixed[OF f])
  qed
qed

text \<open>
  C7, as the code has it. Preparation that sorts first and translates afterwards
  (\<^verbatim>\<open>representation_prepare\<close>, then \<^verbatim>\<open>spatial_prepare\<close>) is idempotent for every
  SymCompare variant (aperiodic, prim-periodic, supercell-periodic, within-supercell)
  and every cluster \<open>X\<close> whose translation is exact, that is, no unit-cell component of a
  translated site leaves the 64-bit range: both steps return the prepared cluster
  unchanged, so \<open>prepare (prepare X) = prepare X\<close>. The aperiodic and the
  within-supercell variant do not translate, and for them this holds for every
  cluster and in either order of the two steps. For the two supercell variants the
  functor that brings a site within the supercell has to leave a site within the
  supercell where it is and keep its sublattice.
\<close>

theorem prepare_idempotent:
  assumes "functor_ok v" and "translation_fits v X"
    and "ord = RepresentationFirst \<or> \<not> translates v"
  shows "spatial_prepare_impl v (prepare ord v X) = prepare ord v X
       \<and> representation_prepare_impl v (prepare ord v X) = prepare ord v X
       \<and> prepare ord v (prepare ord v X) = prepare ord v X"
proof -
  have "prepare ord v X = prepare RepresentationFirst v X"
    using assms(3) prepare_no_translation by blast
  then show ?thesis
    using prepare_representation_first[OF assms(1,2), of ord] by simp
qed

lemma fold2_ok: "within_functor fold2"
  by (auto simp: within_functor_def fold2_def sublat_def split: prod.splits)

lemma prepare_scel_example:
  "prepare RepresentationFirst (ScelPeriodicSymCompare fold2) [((3, 0, 1), 1), ((2, - 1, 0), 0)]
     = [((0, 1, 0), 0), ((1, 2, 1), 1)]"
  by code_simp

lemma prepare_scel_fits:
  "translation_fits (ScelPeriodicSymCompare fold2) [((3, 0, 1), 1), ((2, - 1, 0), 0)]"
  by code_simp

theorem prepare_idempotent_witness:
  "functor_ok (ScelPeriodicSymCompare fold2)
   \<and> translation_fits (ScelPeriodicSymCompare fold2) [((3, 0, 1), 1), ((2, - 1, 0), 0)]
   \<and> prepare RepresentationFirst (ScelPeriodicSymCompare fold2) [((3, 0, 1), 1), ((2, - 1, 0), 0)]
       = [((0, 1, 0), 0), ((1, 2, 1), 1)]
   \<and> prepare RepresentationFirst (ScelPeriodicSymCompare fold2) [((0, 1, 0), 0), ((1, 2, 1), 1)]
       = [((0, 1, 0), 0), ((1, 2, 1), 1)]"
  using prepare_idempotent[of "ScelPeriodicSymCompare fold2" "[((3, 0, 1), 1), ((2, - 1, 0), 0)]"
      RepresentationFirst]
    fold2_ok prepare_scel_fits prepare_scel_example
  by simp

text \<open>The claim as it is stated fails in either order of the two steps, for the
  prim-periodic variant. With the representation step first, the translation of the
  two sites in the cells \<open>(-2\<^sup>6\<^sup>3, 0, 0)\<close> and \<open>(1, 0, 0)\<close> wraps around: the prepared
  cluster is not sorted, and preparing it again gives another cluster. With the
  spatial step first, the site that the sort puts first need not be in the origin
  cell: the cluster of the cells \<open>(1, 0, 0)\<close> and \<open>(0, 0, 0)\<close> is prepared to the cells
  \<open>(-1, 0, 0)\<close> and \<open>(0, 0, 0)\<close>, and that cluster to \<open>(0, 0, 0)\<close> and \<open>(1, 0, 0)\<close>.\<close>

theorem prepare_idempotent_counterexample:
  "prepare RepresentationFirst PrimPeriodicSymCompare
       [((- 9223372036854775808, 0, 0), 0), ((1, 0, 0), 0)]
     = [((0, 0, 0), 0), ((- 9223372036854775807, 0, 0), 0)]
   \<and> prepare RepresentationFirst PrimPeriodicSymCompare
       [((0, 0, 0), 0), ((- 9223372036854775807, 0, 0), 0)]
     = [((0, 0, 0), 0), ((9223372036854775807, 0, 0), 0)]
   \<and> [((0, 0, 0), 0), ((- 9223372036854775807, 0, 0), 0)]
     \<noteq> [((0, 0, 0), 0 :: nat), ((9223372036854775807 :: 64 word, 0 :: 64 word, 0 :: 64 word), 0)]
   \<and> prepare SpatialFirst PrimPeriodicSymCompare [((1, 0, 0), 0), ((0, 0, 0), 0)]
     = [((- 1, 0, 0), 0), ((0, 0, 0), 0)]
   \<and> prepare SpatialFirst PrimPeriodicSymCompare [((- 1, 0, 0), 0), ((0, 0, 0), 0)]
     = [((0, 0, 0), 0), ((1, 0, 0), 0)]
   \<and> [((- 1, 0, 0), 0), ((0, 0, 0), 0)]
     \<noteq> [((0, 0, 0), 0 :: nat), ((1 :: 64 word, 0 :: 64 word, 0 :: 64 word), 0)]"
  by code_simp
section \<open>Properties of find and contains\<close>

lemma find_branch_less:
  "find_branch ops b c < length b \<longleftrightarrow> (\<exists>orb\<in>set b. orbit_contains ops orb c)"
  by (induction b) auto

lemma find_branch_le: "find_branch ops b c \<le> length b"
  by (induction b) auto

lemma find_branch_absent:
  "find_branch ops b c = length b \<longleftrightarrow> (\<forall>orb\<in>set b. \<not> orbit_contains ops orb c)"
  using find_branch_less[of ops b c] find_branch_le[of ops b c] by auto

lemma contains_from_iff:
  "contains_from ops bs c \<longleftrightarrow> (\<exists>b\<in>set bs. \<exists>orb\<in>set b. orbit_contains ops orb c)"
  by (induction bs) (auto simp: find_branch_less)

lemma contains_iff:
  "contains ops T c \<longleftrightarrow> (\<exists>orb\<in>set (concat (branches T)). orbit_contains ops orb c)"
  by (auto simp: contains_def contains_from_iff)

lemma find_from_absent:
  "\<forall>b\<in>set bs. \<forall>orb\<in>set b. \<not> orbit_contains ops orb c \<Longrightarrow>
   find_from ops bs c ind = ind + sum_list (map length bs)"
  by (induction bs arbitrary: ind) (auto simp: find_branch_less)

text \<open>
  C8. For a cluster that no orbit of the tree contains, \<^verbatim>\<open>find(test_clust)\<close> returns the
  total number of orbits and \<^verbatim>\<open>find(test_clust, nb)\<close> returns the number of orbits of
  branch \<open>nb\<close>, as values and not as errors; \<^verbatim>\<open>contains\<close> is false exactly when the
  lookup in every branch returns the number of orbits of that branch.
\<close>

theorem find_not_found:
  "(\<not> contains ops T c \<longleftrightarrow>
      (\<forall>nb<length (branches T). find_nb ops T c nb = Inr (length (branches T ! nb))))
   \<and> ((\<forall>b\<in>set (branches T). \<forall>orb\<in>set b. \<not> orbit_contains ops orb c) \<longrightarrow>
        find_clust ops T c = sum_list (map length (branches T))
        \<and> (\<forall>nb<length (branches T). find_nb ops T c nb = Inr (length (branches T ! nb)))
        \<and> \<not> contains ops T c)"
proof -
  have A: "(\<not> contains ops T c) \<longleftrightarrow>
      (\<forall>nb<length (branches T). find_nb ops T c nb = Inr (length (branches T ! nb)))"
  proof -
    have "(\<forall>b\<in>set (branches T). \<forall>orb\<in>set b. \<not> orbit_contains ops orb c)
        \<longleftrightarrow> (\<forall>nb<length (branches T). \<forall>orb\<in>set (branches T ! nb). \<not> orbit_contains ops orb c)"
      by (simp add: all_set_conv_all_nth)
    then show ?thesis
      by (simp add: contains_def contains_from_iff find_nb_def find_branch_absent)
  qed
  have B: "find_clust ops T c = sum_list (map length (branches T))"
    if "\<forall>b\<in>set (branches T). \<forall>orb\<in>set b. \<not> orbit_contains ops orb c"
    using find_from_absent[OF that, of 0] by (simp add: find_clust_def)
  have C: "\<not> contains ops T c"
    if "\<forall>b\<in>set (branches T). \<forall>orb\<in>set b. \<not> orbit_contains ops orb c"
    using that by (simp add: contains_def contains_from_iff)
  show ?thesis using A B C by blast
qed

lemma chain_tree_lacks_pair:
  "\<forall>b\<in>set (branches chain_tree). \<forall>orb\<in>set b. \<not> orbit_contains chain_ops orb (chain_cluster [0, 1])"
  by (simp add: chain_tree_def chain_ops_def chain_contains_def empty_orbit_def point_orbit_def
      chain_cluster_def chain_calc_def chain_norm_def)

theorem find_not_found_witness:
  "find_clust chain_ops chain_tree (chain_cluster [0, 1]) = 2
   \<and> find_nb chain_ops chain_tree (chain_cluster [0, 1]) 0 = Inr 1
   \<and> find_nb chain_ops chain_tree (chain_cluster [0, 1]) 1 = Inr 1
   \<and> find_nb chain_ops chain_tree (chain_cluster [0, 1]) 2 = Inr 0
   \<and> \<not> contains chain_ops chain_tree (chain_cluster [0, 1])"
proof -
  have len: "length (branches chain_tree) = 3" "sum_list (map length (branches chain_tree)) = 2"
    "length (branches chain_tree ! 0) = 1" "length (branches chain_tree ! 1) = 1"
    "length (branches chain_tree ! 2) = 0"
    by (simp_all add: chain_tree_def)
  from find_not_found[of chain_ops chain_tree "chain_cluster [0, 1]"] chain_tree_lacks_pair
  have f: "find_clust chain_ops chain_tree (chain_cluster [0, 1])
          = sum_list (map length (branches chain_tree))"
    and g: "\<forall>nb<length (branches chain_tree).
            find_nb chain_ops chain_tree (chain_cluster [0, 1]) nb
              = Inr (length (branches chain_tree ! nb))"
    and h: "\<not> contains chain_ops chain_tree (chain_cluster [0, 1])"
    by blast+
  have "find_nb chain_ops chain_tree (chain_cluster [0, 1]) 0 = Inr 1"
    "find_nb chain_ops chain_tree (chain_cluster [0, 1]) 1 = Inr 1"
    "find_nb chain_ops chain_tree (chain_cluster [0, 1]) 2 = Inr 0"
    using g len by simp_all
  then show ?thesis using f h len by simp
qed

section \<open>Properties of the growth by one site\<close>

lemma contains_same_size:
  assumes "same_size_lookup ops T"
  shows "contains ops T c \<longleftrightarrow>
     list_ex (\<lambda>orb. cluster_size (prototype orb) = cluster_size c \<and> orbit_contains ops orb c)
       (concat (branches T))"
  using assms unfolding contains_iff list_ex_iff same_size_lookup_def by blast

lemma push_orbit_differs:
  "np < length (branches T) \<Longrightarrow> push_orbit np orb T \<noteq> T"
proof
  assume np: "np < length (branches T)" and eq: "push_orbit np orb T = T"
  have "length (branches (push_orbit np orb T) ! np) = Suc (length (branches T ! np))"
    using np by (simp add: push_orbit_def)
  then show False using eq by simp
qed

text \<open>
  C1. In the transition from branch \<open>np - 1\<close> to branch \<open>np\<close> the candidate (the cluster
  kept by the loop, which has \<open>np - 1\<close> sites, plus one grid site, brought within the
  unit cell, with its lengths computed) becomes the prototype of a new orbit of branch
  \<open>np\<close> if and only if it has exactly one site, or its maximum length is less than
  \<^verbatim>\<open>max_length[np]\<close> and its minimum length is greater than \<^verbatim>\<open>min_length\<close>, and in both
  cases no orbit of the tree with a prototype of its size contains it. Otherwise the
  tree stays as it is; pushing an orbit always changes the tree.
\<close>

theorem candidate_accepted_iff:
  assumes "same_size_lookup ops T" and "keeps_size ops"
    and "cluster_size tclust = np - 1" and "1 \<le> np"
    and "np < length (max_length T)" and "np < length (branches T)"
  shows "let candidate = calc_properties ops (within_c ops (push_back_site tclust s)) in
     try_site ops G np (tclust, T) s
       = Inr (pop_back_site candidate,
              if accept_candidate ops T np candidate
              then push_orbit np (new_orbit ops G candidate) T else T)
     \<and> push_orbit np (new_orbit ops G candidate) T \<noteq> T"
proof -
  define candidate where "candidate = calc_properties ops (within_c ops (push_back_site tclust s))"
  have "cluster_size candidate = cluster_size (push_back_site tclust s)"
    using assms(2) by (simp add: keeps_size_def candidate_def)
  then have sz: "cluster_size candidate = np"
    using assms(3,4) by (simp add: cluster_size_def push_back_site_def)
  have one: "cluster_size candidate = 1 \<longleftrightarrow> np = 1" using sz by simp
  have acc: "accept_candidate ops T np candidate \<longleftrightarrow>
      (np = 1 \<or> (m_max_length candidate < max_length T ! np \<and> m_min_length candidate > min_length T))
       \<and> \<not> contains ops T candidate"
    unfolding accept_candidate_def one contains_same_size[OF assms(1)] by simp
  have "try_site ops G np (tclust, T) s
       = Inr (pop_back_site candidate,
              if accept_candidate ops T np candidate
              then push_orbit np (new_orbit ops G candidate) T else T)"
    unfolding acc using assms(5)
    by (auto simp: try_site_def Let_def candidate_def)
  moreover have "push_orbit np (new_orbit ops G candidate) T \<noteq> T"
    using assms(6) by (rule push_orbit_differs)
  ultimately show ?thesis by (simp add: candidate_def Let_def)
qed

lemma length_chain_norm: "length (chain_norm xs) = length xs"
proof (cases "sort xs")
  case Nil
  then have "xs = []" by (metis length_sort length_0_conv)
  then show ?thesis by (simp add: chain_norm_def)
next
  case (Cons x r)
  then have "length (chain_norm xs) = length (sort xs)" by (simp add: chain_norm_def)
  then show ?thesis by simp
qed

lemma chain_tree_same_size: "same_size_lookup chain_ops (chain_tree\<lparr>max_length := ml\<rparr>)"
proof -
  have e: "cluster_size (prototype empty_orbit) = cluster_size c"
    if "chain_contains empty_orbit c" for c
  proof -
    from that have "chain_norm (sites c) = []"
      by (simp add: chain_contains_def empty_orbit_def chain_cluster_def chain_calc_def
          chain_norm_def)
    then have "length (sites c) = 0" using length_chain_norm[of "sites c"] by simp
    then show ?thesis by (simp add: cluster_size_def empty_orbit_def empty_cluster_def)
  qed
  have p: "cluster_size (prototype point_orbit) = cluster_size c"
    if "chain_contains point_orbit c" for c
  proof -
    from that have "chain_norm (sites c) = [0]"
      by (simp add: chain_contains_def point_orbit_def chain_cluster_def chain_calc_def
          chain_norm_def)
    then have "length (sites c) = 1" using length_chain_norm[of "sites c"] by simp
    then show ?thesis
      by (simp add: cluster_size_def point_orbit_def chain_cluster_def chain_calc_def)
  qed
  show ?thesis
    using e p by (simp add: same_size_lookup_def chain_tree_def chain_ops_def)
qed

lemma chain_keeps_size: "keeps_size chain_ops"
  by (auto simp: keeps_size_def chain_ops_def chain_calc_def chain_within_def cluster_size_def
      Let_def split: list.splits)

lemma chain_candidate:
  "calc_properties chain_ops (within_c chain_ops (push_back_site (chain_cluster [0]) 1))
     = chain_cluster [0, 1]"
  by (simp add: chain_ops_def chain_within_def push_back_site_def chain_cluster_def chain_calc_def)

lemma chain_cluster_pair:
  "chain_cluster [0, 1] = \<lparr>sites = [0, 1], m_min_length = 1, m_max_length = 1\<rparr>"
  by (simp add: chain_cluster_def chain_calc_def)

lemma chain_tree_no_pair:
  "\<not> contains chain_ops (chain_tree\<lparr>max_length := ml\<rparr>) (chain_cluster [0, 1])"
  by (simp add: contains_def chain_tree_def chain_ops_def chain_contains_def empty_orbit_def
      point_orbit_def chain_cluster_def chain_calc_def chain_norm_def)

theorem candidate_accepted_iff_witness:
  "accept_candidate chain_ops (chain_tree\<lparr>max_length := [0, 0, 3 / 2]\<rparr>) 2 (chain_cluster [0, 1])
   \<and> try_site chain_ops chain_group 2
        (chain_cluster [0], chain_tree\<lparr>max_length := [0, 0, 3 / 2]\<rparr>) 1
      = Inr (pop_back_site (chain_cluster [0, 1]),
             push_orbit 2 (new_orbit chain_ops chain_group (chain_cluster [0, 1]))
               (chain_tree\<lparr>max_length := [0, 0, 3 / 2]\<rparr>))"
proof -
  have acc: "accept_candidate chain_ops (chain_tree\<lparr>max_length := [0, 0, 3 / 2]\<rparr>) 2
      (chain_cluster [0, 1])"
    unfolding accept_candidate_def
      contains_same_size[OF chain_tree_same_size, symmetric]
    using chain_tree_no_pair[of "[0, 0, 3 / 2]"]
    by (simp add: chain_cluster_pair chain_tree_def)
  have "cluster_size (chain_cluster [0 :: int]) = 2 - 1"
    by (simp add: cluster_size_def chain_cluster_def chain_calc_def)
  from candidate_accepted_iff[OF chain_tree_same_size chain_keeps_size this,
      of "[0, 0, 3 / 2]" 1 chain_group]
  show ?thesis
    using acc by (simp add: chain_candidate chain_tree_def Let_def)
qed



text \<open>The same holds of the block for the pair clusters in the mode with a maximal
  number of clusters, which does not test the cutoff.\<close>

lemma pair_block_accepts_tie:
  assumes "m_min_length (calc_properties ops (within_c ops (push_back_site tclust s)))
           > min_length (tree cs)"
    and "\<not> contains ops (tree cs) (calc_properties ops (within_c ops (push_back_site tclust s)))"
  shows "tree (snd (try_pair_site ops G np (tclust, cs) s))
       = push_orbit np (new_orbit ops G
           (calc_properties ops (within_c ops (push_back_site tclust s)))) (tree cs)"
  using assms by (simp add: try_pair_site_def Let_def)

section \<open>Empty branches\<close>

lemma grows_refl: "grows T T"
  by (simp add: grows_def)

lemma grows_trans: "grows T T' \<Longrightarrow> grows T' T'' \<Longrightarrow> grows T T''"
  unfolding grows_def by (auto intro: le_trans)

lemma grows_push: "grows T (push_orbit np orb T)"
proof -
  have "length (branches T ! k) \<le> length ((branches T)[np := branches T ! np @ [orb]] ! k)"
    if "k < length (branches T)" for k
    using that by (cases "k = np") simp_all
  then show ?thesis by (simp add: grows_def push_orbit_def)
qed

lemma try_site_grows:
  "try_site ops G np st s = Inr st' \<Longrightarrow> grows (snd st) (snd st')"
  by (auto simp: try_site_def Let_def grows_push grows_refl split: if_splits)

lemma site_loop_grows:
  "site_loop ops G np st gridstruc = Inr st' \<Longrightarrow> grows (snd st) (snd st')"
proof (induction gridstruc arbitrary: st)
  case Nil
  then show ?case by (simp add: grows_refl)
next
  case (Cons s gridstruc)
  from Cons.prems obtain st1 where
    a: "try_site ops G np st s = Inr st1" and b: "site_loop ops G np st1 gridstruc = Inr st'"
    by (auto split: sum.splits)
  show ?case using try_site_grows[OF a] Cons.IH[OF b] by (rule grows_trans)
qed

lemma orbit_loop_grows:
  "orbit_loop ops G np gridstruc T orbs = Inr T' \<Longrightarrow> grows T T'"
proof (induction orbs arbitrary: T)
  case Nil
  then show ?case by (simp add: grows_refl)
next
  case (Cons orb orbs)
  from Cons.prems obtain st1 where
    a: "site_loop ops G np (start_cluster orb, T) gridstruc = Inr st1"
    and b: "orbit_loop ops G np gridstruc (snd st1) orbs = Inr T'"
    by (auto split: sum.splits)
  show ?case using site_loop_grows[OF a] Cons.IH[OF b] by (auto intro: grows_trans)
qed

lemma grows_nonempty:
  "grows T T' \<Longrightarrow> k < length (branches T) \<Longrightarrow> branches T ! k \<noteq> [] \<Longrightarrow> branches T' ! k \<noteq> []"
  unfolding grows_def by fastforce

lemma branch_loop_nonempty:
  "branch_loop ops G gridstruc T nps = Inr T' \<Longrightarrow>
   grows T T' \<and> (\<forall>np\<in>set nps. np - 1 < length (branches T) \<longrightarrow> branches T' ! (np - 1) \<noteq> [])"
proof (induction nps arbitrary: T)
  case Nil
  then show ?case by (simp add: grows_refl)
next
  case (Cons np nps)
  from Cons.prems have ne: "branches T ! (np - 1) \<noteq> []"
    by (auto split: if_splits)
  from Cons.prems ne obtain T1 where
    T1: "orbit_loop ops G np gridstruc T (branches T ! (np - 1)) = Inr T1"
    and rest: "branch_loop ops G gridstruc T1 nps = Inr T'"
    by (auto split: sum.splits)
  have g1: "grows T T1" using T1 by (rule orbit_loop_grows)
  have IH: "grows T1 T'"
    "\<forall>np\<in>set nps. np - 1 < length (branches T1) \<longrightarrow> branches T' ! (np - 1) \<noteq> []"
    using Cons.IH[OF rest] by simp_all
  have g: "grows T T'" using g1 IH(1) by (rule grows_trans)
  have len: "length (branches T1) = length (branches T)" using g1 by (simp add: grows_def)
  have "branches T' ! (np - 1) \<noteq> []" if "np - 1 < length (branches T)"
    using g that ne by (rule grows_nonempty)
  then show ?case using g IH(2) len by simp
qed

lemma length_branches_start_tree:
  "length (branches (start_tree ops G T)) = max_num_sites T + 1"
  by (simp add: start_tree_def push_orbit_def resize_def)

lemma max_length_start_tree: "max_length (start_tree ops G T) = max_length T"
  by (simp add: start_tree_def push_orbit_def resize_def)

lemma sort_tree_nonempty:
  "k < length (branches T) \<Longrightarrow> branches T ! k \<noteq> [] \<Longrightarrow> branches (sort_tree T) ! k \<noteq> []"
  by (simp add: sort_tree_def sort_branch_def) (metis length_sort length_0_conv)

lemma generate_orbitree_no_empty_branch:
  assumes "generate_orbitree ops G gridstruc T = Inr T'" and "k < max_num_sites T"
  shows "branches T' ! k \<noteq> []"
proof -
  from assms(1) obtain T1 where
    T1: "branch_loop ops G gridstruc (start_tree ops G T) [1..<Suc (max_num_sites T)] = Inr T1"
    and T': "T' = sort_tree T1"
    by (auto simp: generate_orbitree_def split: if_splits sum.splits)
  have "Suc k \<in> set [1..<Suc (max_num_sites T)]" using assms(2) by auto
  moreover have "Suc k - 1 < length (branches (start_tree ops G T))"
    using assms(2) by (simp add: length_branches_start_tree)
  ultimately have ne: "branches T1 ! k \<noteq> []"
    using branch_loop_nonempty[OF T1] by fastforce
  have "length (branches T1) = max_num_sites T + 1"
    using branch_loop_nonempty[OF T1] by (simp add: grows_def length_branches_start_tree)
  then have "k < length (branches T1)" using assms(2) by simp
  then show ?thesis unfolding T' using ne by (rule sort_tree_nonempty)
qed

text \<open>The local variant returns a tree whenever \<^verbatim>\<open>max_length\<close> has an entry for every
  \<open>np\<close>.\<close>

lemma try_site_local_total:
  "np < length (max_length (snd st)) \<Longrightarrow>
   \<exists>st'. try_site_local ops G ph np st s = Inr st' \<and> max_length (snd st') = max_length (snd st)"
  by (auto simp: try_site_local_def Let_def push_orbit_def)

lemma site_loop_local_total:
  "np < length (max_length (snd st)) \<Longrightarrow>
   \<exists>st'. site_loop_local ops G ph np st gridstruc = Inr st' \<and> max_length (snd st') = max_length (snd st)"
proof (induction gridstruc arbitrary: st)
  case Nil
  then show ?case by simp
next
  case (Cons s gridstruc)
  from try_site_local_total[OF Cons.prems, of ops G ph s] obtain st1 where
    st1: "try_site_local ops G ph np st s = Inr st1" "max_length (snd st1) = max_length (snd st)"
    by blast
  with Cons.IH[of st1] Cons.prems show ?case by auto
qed

lemma orbit_loop_local_total:
  "np < length (max_length T) \<Longrightarrow>
   \<exists>T'. orbit_loop_local ops G ph np gridstruc T orbs = Inr T' \<and> max_length T' = max_length T"
proof (induction orbs arbitrary: T)
  case Nil
  then show ?case by simp
next
  case (Cons orb orbs)
  from site_loop_local_total[of np "(start_cluster orb, T)" ops G ph gridstruc] Cons.prems
  obtain st1 where
    st1: "site_loop_local ops G ph np (start_cluster orb, T) gridstruc = Inr st1"
      "max_length (snd st1) = max_length T"
    by auto
  with Cons.IH[of "snd st1"] Cons.prems show ?case by auto
qed

lemma branch_loop_local_total:
  "\<forall>np\<in>set nps. np < length (max_length T) \<Longrightarrow>
   \<exists>T'. branch_loop_local ops G ph gridstruc T nps = Inr T'"
proof (induction nps arbitrary: T)
  case Nil
  then show ?case by simp
next
  case (Cons np nps)
  show ?case
  proof (cases "branches T ! (np - 1) = []")
    case True
    then show ?thesis by simp
  next
    case False
    from orbit_loop_local_total[of np T ops G ph gridstruc "branches T ! (np - 1)"] Cons.prems
    obtain T1 where T1: "orbit_loop_local ops G ph np gridstruc T (branches T ! (np - 1)) = Inr T1"
      "max_length T1 = max_length T"
      by auto
    with Cons.IH[of T1] Cons.prems False show ?thesis by auto
  qed
qed

lemma generate_local_total:
  assumes "max_num_sites T < length (max_length T)"
  shows "\<exists>T'. generate_local_orbitree ops G ph gridstruc T = Inr T'"
proof -
  have "\<forall>np\<in>set [1..<Suc (max_num_sites T)]. np < length (max_length (start_tree ops G T))"
    using assms by (auto simp: max_length_start_tree)
  from branch_loop_local_total[OF this] obtain T1 where
    "branch_loop_local ops G ph gridstruc (start_tree ops G T) [1..<Suc (max_num_sites T)] = Inr T1"
    by blast
  then show ?thesis by (simp add: generate_local_orbitree_def)
qed

text \<open>
  C3, as the code has it. When the loop over \<open>np\<close> finds branch \<open>np - 1\<close> empty,
  \<^verbatim>\<open>generate_orbitree\<close> stops with the error that names \<open>np\<close>, so that a tree it returns
  has no empty branch below \<open>max_num_sites\<close>. \<^verbatim>\<open>generate_local_orbitree\<close> does not fail
  there: it returns the tree built so far, and it returns a tree for every input whose
  \<^verbatim>\<open>max_length\<close> has an entry for each \<open>np \<le> max_num_sites\<close>.
\<close>

theorem empty_branch_handling:
  "(branches T ! (np - 1) = [] \<longrightarrow>
      branch_loop ops G gridstruc T (np # nps) = Inl (CannotEnumerate np)
      \<and> branch_loop_local ops G phenom_clust gridstruc T (np # nps) = Inr T)
   \<and> (generate_orbitree ops G gridstruc T0 = Inr T' \<longrightarrow>
        (\<forall>k<max_num_sites T0. branches T' ! k \<noteq> []))
   \<and> (max_num_sites T0 < length (max_length T0) \<longrightarrow>
        (\<exists>T''. generate_local_orbitree ops G phenom_clust gridstruc T0 = Inr T''))"
  using generate_orbitree_no_empty_branch[of ops G gridstruc T0 T']
    generate_local_total[of T0 ops G phenom_clust gridstruc]
  by simp

lemma chain_generate_pairs:
  "generate_orbitree chain_ops chain_group [0, 1] chain_start
     = Inr (chain_start\<lparr>branches := [[empty_orbit], [point_orbit], [pair_orbit]]\<rparr>)"
  by code_simp

lemma chain_generate_fails:
  "generate_orbitree chain_ops chain_group [] chain_start = Inl (CannotEnumerate 2)"
  by code_simp

lemma chain_local_returns:
  "generate_local_orbitree chain_ops chain_group (chain_cluster [0]) [] chain_start
     = Inr (chain_start\<lparr>branches := [[empty_orbit], [], []]\<rparr>)"
  by code_simp

theorem empty_branch_handling_witness:
  "branches (chain_start\<lparr>branches := [[empty_orbit], [], []]\<rparr>) ! (2 - 1) = []
   \<and> branch_loop chain_ops chain_group [] (chain_start\<lparr>branches := [[empty_orbit], [], []]\<rparr>) [2]
        = Inl (CannotEnumerate 2)
   \<and> generate_orbitree chain_ops chain_group [] chain_start = Inl (CannotEnumerate 2)
   \<and> generate_orbitree chain_ops chain_group [0, 1] chain_start
        = Inr (chain_start\<lparr>branches := [[empty_orbit], [point_orbit], [pair_orbit]]\<rparr>)
   \<and> branches (chain_start\<lparr>branches := [[empty_orbit], [point_orbit], [pair_orbit]]\<rparr>) ! 0 \<noteq> []
   \<and> branches (chain_start\<lparr>branches := [[empty_orbit], [point_orbit], [pair_orbit]]\<rparr>) ! 1 \<noteq> []
   \<and> max_num_sites chain_start < length (max_length chain_start)
   \<and> generate_local_orbitree chain_ops chain_group (chain_cluster [0]) [] chain_start
        = Inr (chain_start\<lparr>branches := [[empty_orbit], [], []]\<rparr>)"
  using empty_branch_handling[where T = "chain_start\<lparr>branches := [[empty_orbit], [], []]\<rparr>"
      and np = 2 and ops = chain_ops and G = chain_group and gridstruc = "[]" and nps = "[]"
      and phenom_clust = "chain_cluster [0]" and ?T0.0 = chain_start
      and T' = "chain_start\<lparr>branches := [[empty_orbit], [], []]\<rparr>"]
    empty_branch_handling[where T = "chain_start\<lparr>branches := [[empty_orbit], [], []]\<rparr>"
      and np = 2 and ops = chain_ops and G = chain_group and gridstruc = "[0, 1]" and nps = "[]"
      and phenom_clust = "chain_cluster [0]" and ?T0.0 = chain_start
      and T' = "chain_start\<lparr>branches := [[empty_orbit], [point_orbit], [pair_orbit]]\<rparr>"]
    chain_generate_pairs chain_generate_fails chain_local_returns
  by (simp add: chain_start_def)

text \<open>The claim as it is stated fails for the local variant: on the chain, without
  candidate sites and with \<open>max_num_sites = 2\<close>, the branch of the point clusters stays
  empty, and the run returns the tree with that empty branch.\<close>

theorem local_empty_branch_counterexample:
  "generate_local_orbitree chain_ops chain_group (chain_cluster [0]) [] chain_start
     = Inr (chain_start\<lparr>branches := [[empty_orbit], [], []]\<rparr>)
   \<and> branches (chain_start\<lparr>branches := [[empty_orbit], [], []]\<rparr>) ! 1 = []
   \<and> 1 < max_num_sites chain_start"
  using chain_local_returns by (simp add: chain_start_def)

section \<open>The sizes of the clusters in a run\<close>

text \<open>
  In a run of \<^verbatim>\<open>generate_orbitree\<close> on a tree without branches, the cluster that the loop
  over the grid sites keeps has \<open>np - 1\<close> sites in every round, and branch \<open>k\<close> holds
  prototypes of \<open>k\<close> sites, provided that \<^verbatim>\<open>within\<close> and \<^verbatim>\<open>calc_properties\<close> keep the
  number of sites. These are the conditions under which the acceptance of a candidate
  was characterised above.
\<close>

lemma push_by_size:
  assumes "branches_by_size T" and "cluster_size c = np"
  shows "branches_by_size (push_orbit np (new_orbit ops G c) T)"
proof -
  have "cluster_size (prototype orb) = k"
    if k: "k < length (branches T)"
      and orb: "orb \<in> set ((branches T)[np := branches T ! np @ [new_orbit ops G c]] ! k)"
    for k orb
  proof (cases "k = np")
    case True
    with k orb have "orb \<in> set (branches T ! np) \<or> orb = new_orbit ops G c" by auto
    then show ?thesis
      using assms True k by (auto simp: branches_by_size_def new_orbit_def)
  next
    case False
    with k orb have "orb \<in> set (branches T ! k)" by simp
    then show ?thesis using assms(1) k by (simp add: branches_by_size_def)
  qed
  then show ?thesis by (simp add: branches_by_size_def push_orbit_def)
qed

lemma try_site_invariant:
  assumes "keeps_size ops" and "branches_by_size (snd st)" and "cluster_size (fst st) = np - 1"
    and "1 \<le> np" and "try_site ops G np st s = Inr st'"
  shows "branches_by_size (snd st') \<and> cluster_size (fst st') = np - 1"
proof -
  define candidate where
    "candidate = calc_properties ops (within_c ops (push_back_site (fst st) s))"
  have "cluster_size candidate = cluster_size (push_back_site (fst st) s)"
    using assms(1) by (simp add: keeps_size_def candidate_def)
  then have sz: "cluster_size candidate = np"
    using assms(3,4) by (simp add: cluster_size_def push_back_site_def)
  have pop: "cluster_size (pop_back_site candidate) = np - 1"
    using sz by (simp add: cluster_size_def pop_back_site_def)
  have "st' = (pop_back_site candidate, push_orbit np (new_orbit ops G candidate) (snd st))
      \<or> st' = (pop_back_site candidate, snd st)"
    using assms(5) by (auto simp: try_site_def Let_def candidate_def split: if_splits)
  then show ?thesis
    using pop push_by_size[OF assms(2) sz] assms(2) by auto
qed

lemma site_loop_invariant:
  assumes "keeps_size ops" and "1 \<le> np"
  shows "branches_by_size (snd st) \<Longrightarrow> cluster_size (fst st) = np - 1 \<Longrightarrow>
     site_loop ops G np st gridstruc = Inr st' \<Longrightarrow>
     branches_by_size (snd st') \<and> cluster_size (fst st') = np - 1"
proof (induction gridstruc arbitrary: st)
  case Nil
  then show ?case by simp
next
  case (Cons s gridstruc)
  from Cons.prems(3) obtain st1 where
    a: "try_site ops G np st s = Inr st1" and b: "site_loop ops G np st1 gridstruc = Inr st'"
    by (auto split: sum.splits)
  from try_site_invariant[OF assms(1) Cons.prems(1,2) assms(2) a]
  have "branches_by_size (snd st1)" "cluster_size (fst st1) = np - 1" by simp_all
  from Cons.IH[OF this b] show ?case .
qed

lemma orbit_loop_invariant:
  assumes "keeps_size ops" and "1 \<le> np"
  shows "branches_by_size T \<Longrightarrow> \<forall>orb\<in>set orbs. cluster_size (prototype orb) = np - 1 \<Longrightarrow>
     orbit_loop ops G np gridstruc T orbs = Inr T' \<Longrightarrow> branches_by_size T'"
proof (induction orbs arbitrary: T)
  case Nil
  then show ?case by simp
next
  case (Cons orb orbs)
  from Cons.prems(3) obtain st1 where
    a: "site_loop ops G np (start_cluster orb, T) gridstruc = Inr st1"
    and b: "orbit_loop ops G np gridstruc (snd st1) orbs = Inr T'"
    by (auto split: sum.splits)
  have sz: "cluster_size (fst (start_cluster orb, T)) = np - 1"
    using Cons.prems(2) by (simp add: start_cluster_def cluster_size_def)
  from site_loop_invariant[OF assms _ sz a] Cons.prems(1)
  have "branches_by_size (snd st1)" by simp
  from Cons.IH[OF this _ b] Cons.prems(2) show ?case by simp
qed

lemma branch_loop_invariant:
  assumes "keeps_size ops"
  shows "branches_by_size T \<Longrightarrow> \<forall>np\<in>set nps. 1 \<le> np \<and> np - 1 < length (branches T) \<Longrightarrow>
     branch_loop ops G gridstruc T nps = Inr T' \<Longrightarrow> branches_by_size T'"
proof (induction nps arbitrary: T)
  case Nil
  then show ?case by simp
next
  case (Cons np nps)
  from Cons.prems(3) obtain T1 where
    a: "orbit_loop ops G np gridstruc T (branches T ! (np - 1)) = Inr T1"
    and b: "branch_loop ops G gridstruc T1 nps = Inr T'"
    by (auto split: if_splits sum.splits)
  have np: "1 \<le> np" "np - 1 < length (branches T)" using Cons.prems(2) by simp_all
  have "\<forall>orb\<in>set (branches T ! (np - 1)). cluster_size (prototype orb) = np - 1"
    using Cons.prems(1) np(2) by (simp add: branches_by_size_def)
  from orbit_loop_invariant[OF assms np(1) Cons.prems(1) this a]
  have T1: "branches_by_size T1" .
  have "length (branches T1) = length (branches T)"
    using orbit_loop_grows[OF a] by (simp add: grows_def)
  with Cons.prems(2) have "\<forall>np\<in>set nps. 1 \<le> np \<and> np - 1 < length (branches T1)" by simp
  from Cons.IH[OF T1 this b] show ?case .
qed

lemma start_tree_by_size:
  assumes "branches T = []"
  shows "branches_by_size (start_tree ops G T)"
proof -
  define n where "n = max_num_sites T + 1"
  have br: "branches (resize n T) = replicate n []"
    using assms by (simp add: resize_def)
  have "branches_by_size (resize n T)"
    unfolding branches_by_size_def br
  proof (intro allI impI ballI)
    fix k and orb :: "'s Orbit"
    assume "k < length (replicate n ([] :: 's Orbit list))"
      and "orb \<in> set (replicate n [] ! k)"
    then have False by simp
    then show "cluster_size (prototype orb) = k" ..
  qed
  then have "branches_by_size (resize (max_num_sites T + 1) T)" by (simp only: n_def)
  moreover have "cluster_size (empty_cluster :: 's Cluster) = 0"
    by (simp add: cluster_size_def empty_cluster_def)
  ultimately show ?thesis unfolding start_tree_def by (rule push_by_size)
qed

lemma generate_orbitree_by_size:
  assumes "keeps_size ops" and "branches T = []"
    and "generate_orbitree ops G gridstruc T = Inr T'"
  shows "branches_by_size T'"
proof -
  from assms(3) obtain T1 where
    T1: "branch_loop ops G gridstruc (start_tree ops G T) [1..<Suc (max_num_sites T)] = Inr T1"
    and T': "T' = sort_tree T1"
    by (auto simp: generate_orbitree_def split: if_splits sum.splits)
  have "\<forall>np\<in>set [1..<Suc (max_num_sites T)].
      1 \<le> np \<and> np - 1 < length (branches (start_tree ops G T))"
    by (auto simp: length_branches_start_tree)
  from branch_loop_invariant[OF assms(1) start_tree_by_size[OF assms(2)] this T1]
  have "branches_by_size T1" .
  then show ?thesis
    unfolding T' by (auto simp: branches_by_size_def sort_tree_def sort_branch_def)
qed


section \<open>The prototype file\<close>

lemma proto_loop_Inr:
  "proto_loop ops G T es = Inr T' \<Longrightarrow>
   list_all (\<lambda>(n, p). n = length (get_equivalent ops G p)) es"
proof (induction es arbitrary: T)
  case Nil
  then show ?case by simp
next
  case (Cons a es)
  obtain n p where a: "a = (n, p)" by (cases a)
  from Cons.prems have eq: "n = orbit_size (new_orbit ops G p)"
    and rest: "proto_loop ops G (push_orbit (cluster_size p) (new_orbit ops G p) T) es = Inr T'"
    unfolding a by (auto simp: Let_def split: if_splits)
  show ?case using eq Cons.IH[OF rest] by (simp add: a orbit_size_def new_orbit_def)
qed

lemma proto_loop_mismatch:
  "proto_loop ops G T es = Inl (EquivalentsMismatch n k p) \<Longrightarrow>
   (n, p) \<in> set es \<and> k = length (get_equivalent ops G p) \<and> n \<noteq> k"
proof (induction es arbitrary: T)
  case Nil
  then show ?case by simp
next
  case (Cons a es)
  obtain n' p' where a: "a = (n', p')" by (cases a)
  show ?case
  proof (cases "n' = orbit_size (new_orbit ops G p')")
    case True
    with Cons.prems have
      "proto_loop ops G (push_orbit (cluster_size p') (new_orbit ops G p') T) es
         = Inl (EquivalentsMismatch n k p)"
      unfolding a by (auto simp: Let_def split: if_splits)
    from Cons.IH[OF this] show ?thesis by simp
  next
    case False
    with Cons.prems show ?thesis
      unfolding a by (auto simp: Let_def orbit_size_def new_orbit_def split: if_splits)
  qed
qed

lemma proto_loop_in_range:
  "\<forall>(n, p)\<in>set es. cluster_size p < length (branches T) \<Longrightarrow>
   proto_loop ops G T es \<noteq> Inl IndexOutOfRange"
proof (induction es arbitrary: T)
  case Nil
  then show ?case by simp
next
  case (Cons a es)
  obtain n p where a: "a = (n, p)" by (cases a)
  have "\<forall>(n, p)\<in>set es. cluster_size p
      < length (branches (push_orbit (cluster_size p') orb T))" for p' orb
    using Cons.prems by (simp add: push_orbit_def)
  from Cons.IH[OF this] Cons.prems show ?case
    unfolding a by (auto simp: Let_def)
qed

lemma proto_loop_errors:
  "proto_loop ops G T es = Inl e \<Longrightarrow>
   e = IndexOutOfRange \<or> (\<exists>n k p. e = EquivalentsMismatch n k p)"
  by (induction es arbitrary: T) (auto simp: Let_def split: if_splits)

lemma fold_max_ge: "(x::nat) \<in> set xs \<Longrightarrow> x \<le> fold max xs m"
proof (induction xs arbitrary: m)
  case Nil
  then show ?case by simp
next
  case (Cons a xs)
  have mono: "m \<le> fold max xs m" for m :: nat
    by (induction xs arbitrary: m) (auto intro: le_trans[OF max.cobounded2])
  show ?case
  proof (cases "x = a")
    case True
    then show ?thesis using mono[of "max a m"] by simp
  next
    case False
    with Cons show ?thesis by simp
  qed
qed

text \<open>
  C9. When the Orbitree is built from a prototype file and the number of equivalents
  declared for a prototype differs from the number generated under the symmetry group,
  the build ends with the fatal error that carries both numbers and the prototype, and
  no tree is returned: a returned tree means that every declaration was right, the
  error names an entry whose declaration was wrong, and a file with a wrong declaration
  (whose clusters have at most the declared number of points) always ends in that
  error.
\<close>

theorem proto_file_mismatch_fatal:
  "(generate_orbitree_from_proto_file ops sym_group entries T = Inr T' \<longrightarrow>
      list_all (declared_right ops sym_group) entries)
   \<and> (generate_orbitree_from_proto_file ops sym_group entries T
        = Inl (EquivalentsMismatch n k p) \<longrightarrow>
      (\<exists>e\<in>set entries. \<not> declared_right ops sym_group e \<and> n = n_equiv e
          \<and> p = calc_properties ops (clust_read e)
          \<and> k = length (get_equivalent ops sym_group p)))
   \<and> (list_all (\<lambda>e. cluster_size (calc_properties ops (clust_read e)) \<le> pts e) entries
        \<and> \<not> list_all (declared_right ops sym_group) entries \<longrightarrow>
      (\<exists>n k p. generate_orbitree_from_proto_file ops sym_group entries T
          = Inl (EquivalentsMismatch n k p)))"
proof -
  define es where "es = map (\<lambda>e. (n_equiv e, calc_properties ops (clust_read e))) entries"
  define m where "m = fold max (map pts entries) 0"
  define T1 where "T1 = resize (m + 1) (T\<lparr>branches := [], max_num_sites := m\<rparr>)"
  have gen: "generate_orbitree_from_proto_file ops sym_group entries T
      = (case proto_loop ops sym_group T1 es of Inl e \<Rightarrow> Inl e | Inr T' \<Rightarrow> Inr (sort_tree T'))"
    by (simp add: generate_orbitree_from_proto_file_def Let_def es_def m_def T1_def)
  have A: "list_all (declared_right ops sym_group) entries"
    if "generate_orbitree_from_proto_file ops sym_group entries T = Inr T'"
  proof -
    from that obtain T2 where "proto_loop ops sym_group T1 es = Inr T2"
      unfolding gen by (auto split: sum.splits)
    from proto_loop_Inr[OF this] show ?thesis
      by (simp add: es_def list_all_iff declared_right_def)
  qed
  have B: "\<exists>e\<in>set entries. \<not> declared_right ops sym_group e \<and> n = n_equiv e
          \<and> p = calc_properties ops (clust_read e)
          \<and> k = length (get_equivalent ops sym_group p)"
    if "generate_orbitree_from_proto_file ops sym_group entries T
        = Inl (EquivalentsMismatch n k p)"
  proof -
    from that have "proto_loop ops sym_group T1 es = Inl (EquivalentsMismatch n k p)"
      unfolding gen by (auto split: sum.splits)
    from proto_loop_mismatch[OF this] show ?thesis
      by (auto simp: es_def declared_right_def)
  qed
  have C: "\<exists>n k p. generate_orbitree_from_proto_file ops sym_group entries T
          = Inl (EquivalentsMismatch n k p)"
    if sz: "list_all (\<lambda>e. cluster_size (calc_properties ops (clust_read e)) \<le> pts e) entries"
      and bad: "\<not> list_all (declared_right ops sym_group) entries"
  proof -
    have len: "length (branches T1) = m + 1"
      by (simp add: T1_def resize_def)
    have "cluster_size (calc_properties ops (clust_read e)) < length (branches T1)"
      if "e \<in> set entries" for e
    proof -
      have "pts e \<le> m" unfolding m_def using that by (intro fold_max_ge) simp
      moreover have "cluster_size (calc_properties ops (clust_read e)) \<le> pts e"
        using sz that by (simp add: list_all_iff)
      ultimately show ?thesis using len by simp
    qed
    then have "\<forall>(n, p)\<in>set es. cluster_size p < length (branches T1)"
      by (auto simp: es_def)
    then have noidx: "proto_loop ops sym_group T1 es \<noteq> Inl IndexOutOfRange"
      by (rule proto_loop_in_range)
    show ?thesis
    proof (cases "proto_loop ops sym_group T1 es")
      case (Inl e)
      with noidx proto_loop_errors[OF Inl] show ?thesis unfolding gen by auto
    next
      case (Inr T2)
      from proto_loop_Inr[OF Inr] have "list_all (declared_right ops sym_group) entries"
        by (simp add: es_def list_all_iff declared_right_def)
      with bad show ?thesis by simp
    qed
  qed
  show ?thesis using A B C by blast
qed

lemma chain_file_wrong_result:
  "generate_orbitree_from_proto_file chain_ops chain_group chain_file_wrong chain_start
     = Inl (EquivalentsMismatch 2 1 (chain_cluster [0, 1]))"
  by code_simp

lemma chain_file_right_result:
  "generate_orbitree_from_proto_file chain_ops chain_group chain_file_right chain_start
     = Inr (chain_start\<lparr>branches := [[], [point_orbit], [pair_orbit]]\<rparr>)"
  by code_simp

lemma chain_file_wrong_facts:
  "list_all (\<lambda>e. cluster_size (calc_properties chain_ops (clust_read e)) \<le> pts e) chain_file_wrong"
  "\<not> list_all (declared_right chain_ops chain_group) chain_file_wrong"
  "list_all (declared_right chain_ops chain_group) chain_file_right"
  by code_simp+

theorem proto_file_mismatch_fatal_witness:
  "list_all (\<lambda>e. cluster_size (calc_properties chain_ops (clust_read e)) \<le> pts e) chain_file_wrong
   \<and> \<not> list_all (declared_right chain_ops chain_group) chain_file_wrong
   \<and> generate_orbitree_from_proto_file chain_ops chain_group chain_file_wrong chain_start
       = Inl (EquivalentsMismatch 2 1 (chain_cluster [0, 1]))
   \<and> generate_orbitree_from_proto_file chain_ops chain_group chain_file_right chain_start
       = Inr (chain_start\<lparr>branches := [[], [point_orbit], [pair_orbit]]\<rparr>)
   \<and> list_all (declared_right chain_ops chain_group) chain_file_right"
  using proto_file_mismatch_fatal[where ops = chain_ops and sym_group = chain_group
      and entries = chain_file_wrong and T = chain_start and n = 2 and k = 1
      and p = "chain_cluster [0, 1]"]
    proto_file_mismatch_fatal[where ops = chain_ops and sym_group = chain_group
      and entries = chain_file_right and T = chain_start
      and T' = "chain_start\<lparr>branches := [[], [point_orbit], [pair_orbit]]\<rparr>"]
    chain_file_wrong_result chain_file_right_result chain_file_wrong_facts
  by simp

section \<open>The mode with a maximal number of clusters\<close>













text \<open>The loop returns exactly when some number of rounds finds enough clusters, and it
  returns the state of the first round that does.\<close>

lemma pair_do_while_returns:
  "maxClust \<le> numClust (pair_rounds ops G maxClust grid_shell np (Suc n) cs) \<Longrightarrow>
   \<exists>m\<le>n. pair_do_while ops G maxClust grid_shell np cs
            = Some (pair_rounds ops G maxClust grid_shell np (Suc m) cs)
      \<and> maxClust \<le> numClust (pair_rounds ops G maxClust grid_shell np (Suc m) cs)
      \<and> (\<forall>j<m. numClust (pair_rounds ops G maxClust grid_shell np (Suc j) cs) < maxClust)"
proof (induction n arbitrary: cs)
  case 0
  then have "\<not> numClust (pair_round ops G maxClust grid_shell np cs) < maxClust" by simp
  then have "pair_do_while ops G maxClust grid_shell np cs
      = Some (pair_round ops G maxClust grid_shell np cs)"
    by (subst pair_do_while.simps) simp
  with 0 show ?case by simp
next
  case (Suc n)
  let ?r = "pair_round ops G maxClust grid_shell np cs"
  show ?case
  proof (cases "numClust ?r < maxClust")
    case False
    then have "pair_do_while ops G maxClust grid_shell np cs = Some ?r"
      by (subst pair_do_while.simps) simp
    with False have "pair_do_while ops G maxClust grid_shell np cs
            = Some (pair_rounds ops G maxClust grid_shell np (Suc 0) cs)
      \<and> maxClust \<le> numClust (pair_rounds ops G maxClust grid_shell np (Suc 0) cs)
      \<and> (\<forall>j<0. numClust (pair_rounds ops G maxClust grid_shell np (Suc j) cs) < maxClust)"
      by simp
    then show ?thesis by blast
  next
    case True
    then have step: "pair_do_while ops G maxClust grid_shell np cs
        = pair_do_while ops G maxClust grid_shell np ?r"
      by (subst pair_do_while.simps) simp
    from Suc.prems have "maxClust \<le> numClust (pair_rounds ops G maxClust grid_shell np (Suc n) ?r)"
      by simp
    from Suc.IH[OF this] obtain m where m: "m \<le> n"
      "pair_do_while ops G maxClust grid_shell np ?r
         = Some (pair_rounds ops G maxClust grid_shell np (Suc m) ?r)"
      "maxClust \<le> numClust (pair_rounds ops G maxClust grid_shell np (Suc m) ?r)"
      "\<forall>j<m. numClust (pair_rounds ops G maxClust grid_shell np (Suc j) ?r) < maxClust"
      by blast
    have "\<forall>j<Suc m. numClust (pair_rounds ops G maxClust grid_shell np (Suc j) cs) < maxClust"
    proof (intro allI impI)
      fix j assume "j < Suc m"
      then show "numClust (pair_rounds ops G maxClust grid_shell np (Suc j) cs) < maxClust"
        using True m(4) by (cases j) simp_all
    qed
    with m step have "Suc m \<le> Suc n \<and> pair_do_while ops G maxClust grid_shell np cs
            = Some (pair_rounds ops G maxClust grid_shell np (Suc (Suc m)) cs)
      \<and> maxClust \<le> numClust (pair_rounds ops G maxClust grid_shell np (Suc (Suc m)) cs)
      \<and> (\<forall>j<Suc m. numClust (pair_rounds ops G maxClust grid_shell np (Suc j) cs) < maxClust)"
      by simp
    then show ?thesis by blast
  qed
qed

lemma pair_do_while_rounds:
  assumes "pair_do_while ops G maxClust grid_shell np cs = Some cs'"
  shows "\<exists>n. cs' = pair_rounds ops G maxClust grid_shell np (Suc n) cs \<and> maxClust \<le> numClust cs'"
proof (rule pair_do_while.raw_induct[where P = "\<lambda>ops G maxClust grid_shell np cs cs'.
      \<exists>n. cs' = pair_rounds ops G maxClust grid_shell np (Suc n) cs \<and> maxClust \<le> numClust cs'",
      OF _ assms], goal_cases)
  case (1 loop ops G maxClust grid_shell np cs cs')
  let ?r = "pair_round ops G maxClust grid_shell np cs"
  show ?case
  proof (cases "numClust ?r < maxClust")
    case True
    with 1(2) have "loop ops G maxClust grid_shell np ?r = Some cs'" by simp
    from 1(1)[OF this] obtain n where
      "cs' = pair_rounds ops G maxClust grid_shell np (Suc n) ?r" "maxClust \<le> numClust cs'"
      by blast
    then have "cs' = pair_rounds ops G maxClust grid_shell np (Suc (Suc n)) cs \<and> maxClust \<le> numClust cs'"
      by simp
    then show ?thesis by blast
  next
    case False
    with 1(2) have "cs' = pair_rounds ops G maxClust grid_shell np (Suc 0) cs \<and> maxClust \<le> numClust cs'"
      by simp
    then show ?thesis by blast
  qed
qed

lemma pair_do_while_returns_iff:
  "(\<exists>cs'. pair_do_while ops G maxClust grid_shell np cs = Some cs')
   \<longleftrightarrow> (\<exists>n. maxClust \<le> numClust (pair_rounds ops G maxClust grid_shell np (Suc n) cs))"
proof
  assume "\<exists>cs'. pair_do_while ops G maxClust grid_shell np cs = Some cs'"
  then obtain cs' where "pair_do_while ops G maxClust grid_shell np cs = Some cs'" ..
  from pair_do_while_rounds[OF this] show
    "\<exists>n. maxClust \<le> numClust (pair_rounds ops G maxClust grid_shell np (Suc n) cs)" by blast
next
  assume "\<exists>n. maxClust \<le> numClust (pair_rounds ops G maxClust grid_shell np (Suc n) cs)"
  then obtain n where "maxClust \<le> numClust (pair_rounds ops G maxClust grid_shell np (Suc n) cs)" ..
  from pair_do_while_returns[OF this] show
    "\<exists>cs'. pair_do_while ops G maxClust grid_shell np cs = Some cs'" by blast
qed








lemma plain_rounds:
  "numClust (pair_rounds plain_ops [1] 3 plain_shell 2 (Suc 0)
      (plain_state\<lparr>maxClustLength := 0, i_grid := 0, numClust := 0\<rparr>)) = 2
   \<and> numClust (pair_rounds plain_ops [1] 3 plain_shell 2 (Suc 1)
      (plain_state\<lparr>maxClustLength := 0, i_grid := 0, numClust := 0\<rparr>)) = 5"
  by code_simp




subsection \<open>Shells that make the loop return\<close>

lemma numClust_try_pair_site:
  "numClust (snd (try_pair_site ops G np st s))
     = (if accepts_site ops (tree (snd st)) (fst st) s then numClust (snd st) + 1 else numClust (snd st))"
  by (simp add: try_pair_site_def accepts_site_def Let_def)

lemma grid_try_pair_site:
  "grid (snd (try_pair_site ops G np st s)) = grid (snd st)
   \<and> i_grid (snd (try_pair_site ops G np st s)) = i_grid (snd st) + 1"
  by (simp add: try_pair_site_def Let_def)

lemma pair_site_loop_facts:
  "numClust (snd st) \<le> numClust (snd (pair_site_loop ops G np st ss))
   \<and> grid (snd (pair_site_loop ops G np st ss)) = grid (snd st)
   \<and> i_grid (snd (pair_site_loop ops G np st ss)) = i_grid (snd st) + length ss"
proof (induction ss arbitrary: st)
  case Nil
  then show ?case by simp
next
  case (Cons s ss)
  have "numClust (snd st) \<le> numClust (snd (try_pair_site ops G np st s))"
    by (simp add: numClust_try_pair_site)
  with Cons.IH[of "try_pair_site ops G np st s"] show ?case
    by (simp add: grid_try_pair_site)
qed

lemma pair_site_loop_first:
  assumes "accepts_site ops (tree (snd st)) (fst st) s"
  shows "numClust (snd st) + 1 \<le> numClust (snd (pair_site_loop ops G np st (s # ss)))"
proof -
  have "numClust (snd (try_pair_site ops G np st s)) = numClust (snd st) + 1"
    using assms by (simp add: numClust_try_pair_site)
  with pair_site_loop_facts[of "try_pair_site ops G np st s" ops G np ss] show ?thesis by simp
qed

lemma pair_orbit_loop_facts:
  "numClust cs \<le> numClust (pair_orbit_loop ops G np cs orbs)
   \<and> grid (pair_orbit_loop ops G np cs orbs) = grid cs
   \<and> i_grid cs \<le> i_grid (pair_orbit_loop ops G np cs orbs)
   \<and> (orbs \<noteq> [] \<longrightarrow> length (grid cs) \<le> i_grid (pair_orbit_loop ops G np cs orbs))"
proof (induction orbs arbitrary: cs)
  case Nil
  then show ?case by simp
next
  case (Cons orb orbs)
  let ?cs1 = "snd (pair_site_loop ops G np (start_cluster orb, cs) (drop (i_grid cs) (grid cs)))"
  have a: "numClust cs \<le> numClust ?cs1" "grid ?cs1 = grid cs"
    "i_grid ?cs1 = i_grid cs + length (drop (i_grid cs) (grid cs))"
    using pair_site_loop_facts[of "(start_cluster orb, cs)" ops G np "drop (i_grid cs) (grid cs)"]
    by simp_all
  then have b: "length (grid cs) \<le> i_grid ?cs1" "i_grid cs \<le> i_grid ?cs1" by simp_all
  from Cons.IH[of ?cs1] a b show ?case by simp
qed

lemma pair_orbit_loop_first:
  assumes "drop (i_grid cs) (grid cs) = s # ss"
    and "accepts_site ops (tree cs) (start_cluster orb) s"
  shows "numClust cs + 1 \<le> numClust (pair_orbit_loop ops G np cs (orb # orbs))"
proof -
  let ?cs1 = "snd (pair_site_loop ops G np (start_cluster orb, cs) (s # ss))"
  have "numClust cs + 1 \<le> numClust ?cs1"
    using pair_site_loop_first[of ops "(start_cluster orb, cs)" s G np ss] assms(2) by simp
  moreover have "numClust ?cs1 \<le> numClust (pair_orbit_loop ops G np ?cs1 orbs)"
    using pair_orbit_loop_facts[of ?cs1 ops G np orbs] by simp
  ultimately show ?thesis using assms(1) by simp
qed

lemma numClust_pair_round:
  "numClust (pair_round ops G maxClust grid_shell np cs)
     = numClust (pair_orbit_loop ops G np cs (branches (tree cs) ! (np - 1)))"
  by (simp add: pair_round_def Let_def)

lemma pair_round_mono: "numClust cs \<le> numClust (pair_round ops G maxClust grid_shell np cs)"
  using pair_orbit_loop_facts[of cs ops G np "branches (tree cs) ! (np - 1)"]
  by (simp add: numClust_pair_round)

lemma i_grid_pair_orbit_loop:
  "i_grid cs \<le> length (grid cs) \<Longrightarrow>
   i_grid (pair_orbit_loop ops G np cs orbs) = (if orbs = [] then i_grid cs else length (grid cs))"
proof (induction orbs arbitrary: cs)
  case Nil
  then show ?case by simp
next
  case (Cons orb orbs)
  let ?cs1 = "snd (pair_site_loop ops G np (start_cluster orb, cs) (drop (i_grid cs) (grid cs)))"
  have a: "grid ?cs1 = grid cs" "i_grid ?cs1 = i_grid cs + length (drop (i_grid cs) (grid cs))"
    using pair_site_loop_facts[of "(start_cluster orb, cs)" ops G np "drop (i_grid cs) (grid cs)"]
    by simp_all
  then have b: "i_grid ?cs1 = length (grid ?cs1)" using Cons.prems by simp
  then have "i_grid ?cs1 \<le> length (grid ?cs1)" by simp
  from Cons.IH[OF this] a b show ?case by simp
qed

lemma tree_try_pair_site:
  "k \<noteq> np \<Longrightarrow> branches (tree (snd (try_pair_site ops G np st s))) ! k = branches (tree (snd st)) ! k"
  by (simp add: try_pair_site_def Let_def push_orbit_def)

lemma tree_pair_site_loop:
  "k \<noteq> np \<Longrightarrow> branches (tree (snd (pair_site_loop ops G np st ss))) ! k = branches (tree (snd st)) ! k"
  by (induction ss arbitrary: st) (simp_all add: tree_try_pair_site)

lemma tree_pair_orbit_loop:
  "k \<noteq> np \<Longrightarrow> branches (tree (pair_orbit_loop ops G np cs orbs)) ! k = branches (tree cs) ! k"
  by (induction orbs arbitrary: cs) (simp_all add: tree_pair_site_loop)

lemma tree_pair_round:
  "k \<noteq> np \<Longrightarrow> branches (tree (pair_round ops G maxClust grid_shell np cs)) ! k = branches (tree cs) ! k"
  by (simp add: pair_round_def Let_def tree_pair_orbit_loop)

text \<open>After a round that ends short, the part of the grid that has not been visited is
  the shell that the round has appended.\<close>

lemma pair_round_rest:
  assumes "branches (tree cs) ! (np - 1) \<noteq> []" and "i_grid cs \<le> length (grid cs)"
    and "numClust (pair_round ops G maxClust grid_shell np cs) < maxClust"
  shows "drop (i_grid (pair_round ops G maxClust grid_shell np cs))
            (grid (pair_round ops G maxClust grid_shell np cs))
          = grid_shell (ctr (pair_round ops G maxClust grid_shell np cs))"
    and "i_grid (pair_round ops G maxClust grid_shell np cs)
            \<le> length (grid (pair_round ops G maxClust grid_shell np cs))"
proof -
  let ?cs1 = "pair_orbit_loop ops G np cs (branches (tree cs) ! (np - 1))"
  have short: "numClust ?cs1 < maxClust" using assms(3) by (simp add: numClust_pair_round)
  have i: "i_grid ?cs1 = length (grid cs)"
    using i_grid_pair_orbit_loop[OF assms(2), where ops = ops and G = G and np = np
        and orbs = "branches (tree cs) ! (np - 1)"] assms(1) by simp
  have g: "grid ?cs1 = grid cs"
    using pair_orbit_loop_facts[of cs ops G np "branches (tree cs) ! (np - 1)"] by simp
  have r: "pair_round ops G maxClust grid_shell np cs
      = ?cs1\<lparr>ctr := ctr ?cs1 + 1, grid := grid ?cs1 @ grid_shell (ctr ?cs1 + 1)\<rparr>"
    using short by (simp add: pair_round_def Let_def)
  show "drop (i_grid (pair_round ops G maxClust grid_shell np cs))
            (grid (pair_round ops G maxClust grid_shell np cs))
          = grid_shell (ctr (pair_round ops G maxClust grid_shell np cs))"
    unfolding r using i g by simp
  show "i_grid (pair_round ops G maxClust grid_shell np cs)
            \<le> length (grid (pair_round ops G maxClust grid_shell np cs))"
    unfolding r using i g by simp
qed

lemma pair_round_fresh:
  assumes "branches (tree cs) ! (np - 1) = orb0 # rest"
    and "drop (i_grid cs) (grid cs) = s # ss"
    and "accepts_site ops (tree cs) (start_cluster orb0) s"
  shows "numClust cs + 1 \<le> numClust (pair_round ops G maxClust grid_shell np cs)"
  using pair_orbit_loop_first[OF assms(2,3), of G np rest] assms(1)
  by (simp add: numClust_pair_round)

lemma pair_rounds_Suc:
  "pair_rounds ops G maxClust grid_shell np (Suc n) cs
     = pair_round ops G maxClust grid_shell np (pair_rounds ops G maxClust grid_shell np n cs)"
  by (induction n arbitrary: cs) simp_all

text \<open>If every shell that is appended starts with a site that gives a new cluster,
  every round after the first finds a cluster, and the loop returns.\<close>

lemma fresh_shells_rounds:
  assumes np: "1 \<le> np" and br: "branches (tree cs) ! (np - 1) = orb0 # rest"
    and i0: "i_grid cs \<le> length (grid cs)"
    and fresh: "fresh_shells ops G maxClust grid_shell np orb0 cs"
  shows "(maxClust \<le> numClust (pair_rounds ops G maxClust grid_shell np (Suc k) cs)
          \<or> numClust cs + int k \<le> numClust (pair_rounds ops G maxClust grid_shell np (Suc k) cs))
       \<and> branches (tree (pair_rounds ops G maxClust grid_shell np (Suc k) cs)) ! (np - 1) = orb0 # rest
       \<and> (numClust (pair_rounds ops G maxClust grid_shell np (Suc k) cs) < maxClust \<longrightarrow>
            drop (i_grid (pair_rounds ops G maxClust grid_shell np (Suc k) cs))
                 (grid (pair_rounds ops G maxClust grid_shell np (Suc k) cs))
              = grid_shell (ctr (pair_rounds ops G maxClust grid_shell np (Suc k) cs))
            \<and> i_grid (pair_rounds ops G maxClust grid_shell np (Suc k) cs)
                \<le> length (grid (pair_rounds ops G maxClust grid_shell np (Suc k) cs)))"
proof (induction k)
  case 0
  have ne: "branches (tree cs) ! (np - 1) \<noteq> []" using br by simp
  have "np - 1 \<noteq> np" using np by simp
  then have "branches (tree (pair_round ops G maxClust grid_shell np cs)) ! (np - 1) = orb0 # rest"
    using br by (simp add: tree_pair_round)
  then show ?case
    using pair_round_mono[of cs ops G maxClust grid_shell np]
      pair_round_rest[where ops = ops and G = G and maxClust = maxClust
        and grid_shell = grid_shell, OF ne i0]
    by simp
next
  case (Suc k)
  let ?c = "pair_rounds ops G maxClust grid_shell np (Suc k) cs"
  let ?r = "pair_round ops G maxClust grid_shell np ?c"
  have r: "pair_rounds ops G maxClust grid_shell np (Suc (Suc k)) cs = ?r"
    by (rule pair_rounds_Suc)
  from Suc.IH have brc: "branches (tree ?c) ! (np - 1) = orb0 # rest" by blast
  have "np - 1 \<noteq> np" using np by simp
  then have brr: "branches (tree ?r) ! (np - 1) = orb0 # rest"
    using brc by (simp add: tree_pair_round)
  have mono: "numClust ?c \<le> numClust ?r" by (rule pair_round_mono)
  show ?case
  proof (cases "numClust ?c < maxClust")
    case False
    then have "maxClust \<le> numClust ?r" using mono by simp
    then show ?thesis unfolding r using brr by simp
  next
    case True
    with Suc.IH have rest: "drop (i_grid ?c) (grid ?c) = grid_shell (ctr ?c)"
      and ig: "i_grid ?c \<le> length (grid ?c)"
      and cnt: "numClust cs + int k \<le> numClust ?c"
      by auto
    from fresh True have ne: "grid_shell (ctr ?c) \<noteq> []"
      and acc: "accepts_site ops (tree ?c) (start_cluster orb0) (hd (grid_shell (ctr ?c)))"
      unfolding fresh_shells_def Let_def by blast+
    from ne have "drop (i_grid ?c) (grid ?c) = hd (grid_shell (ctr ?c)) # tl (grid_shell (ctr ?c))"
      using rest by simp
    from pair_round_fresh[OF brc this acc]
    have "numClust ?c + 1 \<le> numClust ?r" .
    with cnt have "numClust cs + int (Suc k) \<le> numClust ?r" by simp
    moreover have nec: "branches (tree ?c) ! (np - 1) \<noteq> []" using brc by simp
    ultimately show ?thesis
      unfolding r using brr
        pair_round_rest[where ops = ops and G = G and maxClust = maxClust
          and grid_shell = grid_shell, OF nec ig]
      by simp
  qed
qed

lemma fresh_shells_return:
  assumes np: "1 \<le> np" and br: "branches (tree cs) ! (np - 1) = orb0 # rest"
    and i0: "i_grid cs \<le> length (grid cs)" and n0: "0 \<le> numClust cs"
    and fresh: "fresh_shells ops G maxClust grid_shell np orb0 cs"
  shows "maxClust \<le> numClust (pair_rounds ops G maxClust grid_shell np (Suc (nat maxClust)) cs)"
proof -
  have "maxClust \<le> numClust (pair_rounds ops G maxClust grid_shell np (Suc (nat maxClust)) cs)
      \<or> numClust cs + int (nat maxClust)
          \<le> numClust (pair_rounds ops G maxClust grid_shell np (Suc (nat maxClust)) cs)"
    using fresh_shells_rounds[OF np br i0 fresh, where k = "nat maxClust"]
    by blast
  then show ?thesis
  proof
    assume "maxClust \<le> numClust (pair_rounds ops G maxClust grid_shell np (Suc (nat maxClust)) cs)"
    then show ?thesis .
  next
    assume b: "numClust cs + int (nat maxClust)
          \<le> numClust (pair_rounds ops G maxClust grid_shell np (Suc (nat maxClust)) cs)"
    have "maxClust \<le> int (nat maxClust)" by simp
    with b n0 show ?thesis by linarith
  qed
qed

text \<open>Shells without sites never give a new cluster: a loop that has visited its grid
  and is short of clusters does not return.\<close>

lemma pair_orbit_loop_visited:
  "length (grid cs) \<le> i_grid cs \<Longrightarrow> pair_orbit_loop ops G np cs orbs = cs"
  by (induction orbs arbitrary: cs) simp_all

lemma empty_shells_rounds:
  assumes "\<And>k. grid_shell k = []" and "length (grid cs) \<le> i_grid cs"
    and "numClust cs < maxClust"
  shows "numClust (pair_rounds ops G maxClust grid_shell np n cs) = numClust cs"
  using assms(2,3)
proof (induction n arbitrary: cs)
  case 0
  then show ?case by simp
next
  case (Suc n)
  have r: "pair_round ops G maxClust grid_shell np cs = cs\<lparr>ctr := ctr cs + 1\<rparr>"
    using Suc.prems assms(1) by (simp add: pair_round_def Let_def pair_orbit_loop_visited)
  show ?case
    using Suc.IH[of "cs\<lparr>ctr := ctr cs + 1\<rparr>"] Suc.prems by (simp add: r)
qed

lemma empty_shells_never_return:
  assumes "\<And>k. grid_shell k = []" and "length (grid cs) \<le> i_grid cs"
    and "numClust cs < maxClust"
  shows "pair_do_while ops G maxClust grid_shell np cs = None"
proof (rule ccontr)
  assume "pair_do_while ops G maxClust grid_shell np cs \<noteq> None"
  then have "\<exists>cs'. pair_do_while ops G maxClust grid_shell np cs = Some cs'" by auto
  then obtain n where "maxClust \<le> numClust (pair_rounds ops G maxClust grid_shell np (Suc n) cs)"
    unfolding pair_do_while_returns_iff by blast
  moreover have "numClust (pair_rounds ops G maxClust grid_shell np (Suc n) cs) = numClust cs"
    using assms by (rule empty_shells_rounds)
  ultimately show False using assms(3) by simp
qed


lemma fresh_shells_loop_returns:
  assumes "1 \<le> np" and "branches (tree cs) ! (np - 1) = orb0 # rest"
    and "i_grid cs \<le> length (grid cs)" and "0 \<le> numClust cs"
    and "fresh_shells ops G maxClust grid_shell np orb0 cs"
  shows "\<exists>cs1. pair_do_while ops G maxClust grid_shell np cs = Some cs1 \<and> maxClust \<le> numClust cs1"
proof -
  have "maxClust \<le> numClust (pair_rounds ops G maxClust grid_shell np (Suc (nat maxClust)) cs)"
    using assms by (rule fresh_shells_return)
  from pair_do_while_returns[OF this] show ?thesis by blast
qed

lemma pair_rounds_mono:
  "numClust cs \<le> numClust (pair_rounds ops G maxClust grid_shell np n cs)"
proof (induction n arbitrary: cs)
  case 0
  then show ?case by simp
next
  case (Suc n)
  have "numClust cs \<le> numClust (pair_round ops G maxClust grid_shell np cs)"
    by (rule pair_round_mono)
  also have "\<dots> \<le> numClust (pair_rounds ops G maxClust grid_shell np n
      (pair_round ops G maxClust grid_shell np cs))"
    by (rule Suc.IH)
  finally show ?case by simp
qed

lemma pair_rounds_add:
  "pair_rounds ops G maxClust grid_shell np (m + n) cs
     = pair_rounds ops G maxClust grid_shell np n (pair_rounds ops G maxClust grid_shell np m cs)"
  by (induction m arbitrary: cs) simp_all

lemma plain_first_shell:
  "let c = pair_rounds plain_ops [1] 3 plain_shell 2 (Suc 0)
             (plain_state\<lparr>maxClustLength := 0, i_grid := 0, numClust := 0\<rparr>) in
   plain_shell (ctr c) \<noteq> []
   \<and> accepts_site plain_ops (tree c) (start_cluster point_orbit) (hd (plain_shell (ctr c)))"
  by code_simp

lemma plain_fresh_shells:
  "fresh_shells plain_ops [1] 3 plain_shell 2 point_orbit
     (plain_state\<lparr>maxClustLength := 0, i_grid := 0, numClust := 0\<rparr>)"
  unfolding fresh_shells_def
proof
  fix k
  let ?cs0 = "plain_state\<lparr>maxClustLength := 0, i_grid := 0, numClust := 0\<rparr>"
  show "let c = pair_rounds plain_ops [1] 3 plain_shell 2 (Suc k) ?cs0 in
        numClust c < 3 \<longrightarrow>
          plain_shell (ctr c) \<noteq> []
          \<and> accepts_site plain_ops (tree c) (start_cluster point_orbit) (hd (plain_shell (ctr c)))"
  proof (cases k)
    case 0
    then show ?thesis using plain_first_shell by (simp add: Let_def)
  next
    case (Suc j)
    have "pair_rounds plain_ops [1] 3 plain_shell 2 (Suc k) ?cs0
        = pair_rounds plain_ops [1] 3 plain_shell 2 j
            (pair_rounds plain_ops [1] 3 plain_shell 2 (Suc 1) ?cs0)"
      using pair_rounds_add[of plain_ops "[1]" 3 plain_shell 2 "Suc 1" j ?cs0] Suc
      by (simp only: add_Suc add_0 One_nat_def)
    moreover have "numClust (pair_rounds plain_ops [1] 3 plain_shell 2 (Suc 1) ?cs0) = 5"
      using plain_rounds by simp
    ultimately have "5 \<le> numClust (pair_rounds plain_ops [1] 3 plain_shell 2 (Suc k) ?cs0)"
      using pair_rounds_mono[of "pair_rounds plain_ops [1] 3 plain_shell 2 (Suc 1) ?cs0"
          plain_ops "[1]" 3 plain_shell 2 j]
      by simp
    then show ?thesis by (simp add: Let_def)
  qed
qed
section \<open>The subcluster table\<close>

lemma subcluster_loop_length:
  "length (snd (subcluster_loop ops T ps st vs))
     = length (snd st) + length (filter (\<lambda>v. v \<noteq> replicate (length ps) 0 \<and> v \<noteq> replicate (length ps) 1) vs)"
  by (induction vs arbitrary: st) (auto simp: Let_def)

lemma set_counter_step:
  "set (concat (map (\<lambda>m. [a # m, b # m]) xs)) = (\<lambda>m. a # m) ` set xs \<union> (\<lambda>m. b # m) ` set xs"
  by (induction xs) auto

lemma distinct_counter_step:
  "a \<noteq> b \<Longrightarrow> distinct xs \<Longrightarrow> distinct (concat (map (\<lambda>m. [a # m, b # m]) xs))"
  by (induction xs) (auto simp: set_counter_step)

lemma length_counter_step: "length (concat (map (\<lambda>m. [a # m, b # m]) xs)) = 2 * length xs"
  by (induction xs) auto

lemma distinct_counter_values: "distinct (counter_values k)"
proof (induction k)
  case 0
  show ?case by simp
next
  case (Suc k)
  have "(0::nat) \<noteq> 1" by simp
  from distinct_counter_step[OF this Suc] show ?case by (simp only: counter_values.simps)
qed

lemma length_counter_values: "length (counter_values k) = 2 ^ k"
proof (induction k)
  case 0
  show ?case by simp
next
  case (Suc k)
  have "length (counter_values (Suc k)) = 2 * length (counter_values k)"
    by (simp only: counter_values.simps length_counter_step)
  then show ?case using Suc by simp
qed

lemma zeros_in_counter: "replicate k 0 \<in> set (counter_values k)"
proof (induction k)
  case 0
  show ?case by simp
next
  case (Suc k)
  have "replicate (Suc k) (0::nat) = 0 # replicate k 0" by simp
  moreover have "0 # replicate k 0 \<in> (\<lambda>m. 0 # m) ` set (counter_values k)"
    using Suc by (rule imageI)
  ultimately show ?case unfolding counter_values.simps set_counter_step by simp
qed

lemma ones_in_counter: "replicate k 1 \<in> set (counter_values k)"
proof (induction k)
  case 0
  show ?case by simp
next
  case (Suc k)
  have "replicate (Suc k) (1::nat) = 1 # replicate k 1" by simp
  moreover have "1 # replicate k 1 \<in> (\<lambda>m. 1 # m) ` set (counter_values k)"
    using Suc by (rule imageI)
  ultimately show ?case unfolding counter_values.simps set_counter_step by simp
qed

lemma proper_subsets_count:
  assumes "1 \<le> k"
  shows "length (filter (\<lambda>v. v \<noteq> replicate k 0 \<and> v \<noteq> replicate k 1) (counter_values k)) = 2 ^ k - 2"
proof -
  let ?Z = "replicate k (0::nat)" and ?O = "replicate k (1::nat)"
  have ne: "?Z \<noteq> ?O" using assms by (cases k) auto
  have "length (filter (\<lambda>v. v \<noteq> ?Z \<and> v \<noteq> ?O) (counter_values k))
      = card (set (filter (\<lambda>v. v \<noteq> ?Z \<and> v \<noteq> ?O) (counter_values k)))"
    using distinct_card[OF distinct_filter[OF distinct_counter_values]] by (rule sym)
  also have "set (filter (\<lambda>v. v \<noteq> ?Z \<and> v \<noteq> ?O) (counter_values k))
      = set (counter_values k) - {?Z, ?O}"
    by auto
  also have "card (set (counter_values k) - {?Z, ?O}) = card (set (counter_values k)) - card {?Z, ?O}"
    using zeros_in_counter[of k] ones_in_counter[of k] by (intro card_Diff_subset) auto
  also have "card (set (counter_values k)) = 2 ^ k"
    using distinct_card[OF distinct_counter_values, of k] by (simp add: length_counter_values)
  also have "card {?Z, ?O} = 2" using ne by simp
  finally show ?thesis .
qed

text \<open>The table has the size that the specification gives: a row for a prototype of
  \<open>k \<ge> 1\<close> sites has \<open>2 ^ k - 2\<close> entries, one for every value of the counter between the
  two that are skipped.\<close>

lemma subcluster_row_length:
  "1 \<le> length (sites (prototype orb)) \<Longrightarrow>
   length (subcluster_row ops T orb) = 2 ^ length (sites (prototype orb)) - 2"
  using proper_subsets_count[of "length (sites (prototype orb))"]
  by (simp add: subcluster_row_def subcluster_loop_length)

text \<open>
  C6. The specification asks that the row of an orbit holds, for every proper non-empty
  subset of the sites of its prototype, the index that \<^verbatim>\<open>find\<close> gives for the cluster of
  these sites. The code looks up the cluster that has collected the sites of all the
  subsets so far. On the chain tree with the pairs of length one and two and the
  triplet \<open>[0, 1, 2]\<close> (five orbits, indices \<open>0\<close> to \<open>4\<close>) the row of the triplet is
  \<open>[1, 2, 5, 5, 5, 5]\<close>: from the third entry on the cluster looked up has four or more
  sites and \<^verbatim>\<open>find\<close> returns the number of orbits. The subsets themselves resolve to
  \<open>[1, 1, 2, 1, 3, 2]\<close>: every pair of sites of the triplet is in a pair orbit.
\<close>

theorem hierarchy_accumulates_subsets:
  "get_hierarchy chain_ops triplet_tree = [[], [], [1, 2], [1, 3], [1, 2, 5, 5, 5, 5]]
   \<and> map (subcluster_row_spec chain_ops triplet_tree) (concat (branches triplet_tree))
       = [[], [], [1, 1], [1, 1], [1, 1, 2, 1, 3, 2]]"
  by code_simp

section \<open>Orbit and stabilizer\<close>




lemma deduplicate_set:
  assumes "is_total cmp"
  shows "distinct seen \<Longrightarrow> distinct (deduplicate cmp seen xs)
       \<and> set (deduplicate cmp seen xs) = set seen \<union> set xs"
proof (induction xs arbitrary: seen)
  case Nil
  then show ?case by simp
next
  case (Cons x xs)
  have ex: "list_ex (compare_equal cmp x) seen \<longleftrightarrow> x \<in> set seen"
    using assms by (auto simp: list_ex_iff is_total_def)
  show ?case
  proof (cases "x \<in> set seen")
    case True
    then show ?thesis using Cons.IH[OF Cons.prems] ex by auto
  next
    case False
    then have "distinct (seen @ [x])" using Cons.prems by simp
    from Cons.IH[OF this] False ex show ?thesis by auto
  qed
qed

lemma length_deduplicate:
  assumes "is_total cmp"
  shows "length (deduplicate cmp [] xs) = card (set xs)"
proof -
  have d: "distinct (deduplicate cmp [] xs)" and s: "set (deduplicate cmp [] xs) = set xs"
    using deduplicate_set[OF assms, of "[]" xs] by simp_all
  from distinct_card[OF d] s show ?thesis by simp
qed













end
